theory Spec2Isabelle
  imports Main
begin

section \<open>Values, documents and identifiers\<close>

text \<open>
  The handlers of \<^verbatim>\<open>src/routes/items.js\<close> receive the request body as a parsed JSON
  object and test its fields with JavaScript truthiness, so a field is a JavaScript value:
  \<open>Undefined\<close> is what destructuring yields for an absent field. Numbers are kept by their
  value only (the handlers ask nothing of a number but whether it is zero). A stored
  document additionally holds dates and object ids. An object id is the twelve bytes of
  the driver's \<^verbatim>\<open>ObjectId\<close>, written as its 24 four-bit digits.
\<close>

type_synonym objectid = "nat list"

datatype jsval =
    Undefined
  | Null
  | Bool bool
  | Num int
  | Str string
  | Date nat
  | ObjId objectid
  | Arr "jsval list"
  | Obj "(string \<times> jsval) list"

type_synonym document = "(string \<times> jsval) list"

text \<open>\<^verbatim>\<open>!v\<close> is \<open>\<not> truthy v\<close>.\<close>

fun truthy :: "jsval \<Rightarrow> bool" where
  "truthy Undefined = False"
| "truthy Null = False"
| "truthy (Bool b) = b"
| "truthy (Num n) = (n \<noteq> 0)"
| "truthy (Str s) = (s \<noteq> [])"
| "truthy (Date t) = True"
| "truthy (ObjId i) = True"
| "truthy (Arr vs) = True"
| "truthy (Obj fs) = True"

text \<open>\<^verbatim>\<open>a || b\<close>\<close>

definition js_or :: "jsval \<Rightarrow> jsval \<Rightarrow> jsval" where
  "js_or a b = (if truthy a then a else b)"

text \<open>Property access \<^verbatim>\<open>o.k\<close>, as the destructuring \<^verbatim>\<open>const { name, description } = req.body\<close> does it.\<close>

definition field :: "document \<Rightarrow> string \<Rightarrow> jsval" where
  "field d k = (case map_of d k of None \<Rightarrow> Undefined | Some v \<Rightarrow> v)"

text \<open>
  The driver serialises a document to BSON before sending it. With the driver's default
  options (\<^verbatim>\<open>ignoreUndefined: false\<close>) a field holding \<^verbatim>\<open>undefined\<close> is written as null.
\<close>

fun to_bson :: "jsval \<Rightarrow> jsval" where
  "to_bson Undefined = Null"
| "to_bson v = v"

definition serialize :: "document \<Rightarrow> document" where
  "serialize d = map (\<lambda>(k, v). (k, to_bson v)) d"

text \<open>The effect of \<^verbatim>\<open>$set\<close> for one field: overwrite it where it stands, or add it at the end.\<close>

primrec set_field :: "string \<Rightarrow> jsval \<Rightarrow> document \<Rightarrow> document" where
  "set_field k v [] = [(k, v)]"
| "set_field k v (p # ps) = (if fst p = k then (k, v) # ps else p # set_field k v ps)"

definition apply_set :: "document \<Rightarrow> document \<Rightarrow> document" where
  "apply_set upd d = fold (\<lambda>(k, v). set_field k v) (serialize upd) d"

subsection \<open>\<^verbatim>\<open>ObjectId\<close>\<close>

definition hex_table :: "(char \<times> nat) list" where
  "hex_table =
     [(CHR ''0'', 0), (CHR ''1'', 1), (CHR ''2'', 2), (CHR ''3'', 3), (CHR ''4'', 4),
      (CHR ''5'', 5), (CHR ''6'', 6), (CHR ''7'', 7), (CHR ''8'', 8), (CHR ''9'', 9),
      (CHR ''a'', 10), (CHR ''b'', 11), (CHR ''c'', 12), (CHR ''d'', 13), (CHR ''e'', 14),
      (CHR ''f'', 15),
      (CHR ''A'', 10), (CHR ''B'', 11), (CHR ''C'', 12), (CHR ''D'', 13), (CHR ''E'', 14),
      (CHR ''F'', 15)]"

definition hex_value :: "char \<Rightarrow> nat option" where
  "hex_value c = map_of hex_table c"

fun parse_hex :: "string \<Rightarrow> nat list option" where
  "parse_hex [] = Some []"
| "parse_hex (c # cs) =
     (case hex_value c of
        None \<Rightarrow> None
      | Some d \<Rightarrow> (case parse_hex cs of None \<Rightarrow> None | Some ds \<Rightarrow> Some (d # ds)))"

definition hex_char :: "nat \<Rightarrow> char" where
  "hex_char d = ''0123456789abcdef'' ! d"

datatype error =
    NotConnected
  | ParseError
  | ConnectionError
  | TypeError
  | StoreFailure
  | DuplicateKey
  | BSONError

text \<open>
  \<^verbatim>\<open>new ObjectId(id)\<close> for a string \<^verbatim>\<open>id\<close> (a route parameter is always a string): a string
  of 24 hexadecimal digits is decoded, any other string throws.
\<close>

definition ObjectId_new :: "string \<Rightarrow> error + objectid" where
  "ObjectId_new ident =
     (if length ident = 24 then
        (case parse_hex ident of None \<Rightarrow> Inl BSONError | Some ds \<Rightarrow> Inr ds)
      else Inl BSONError)"

text \<open>\<^verbatim>\<open>ObjectId.isValid(id)\<close>: whether the constructor accepts \<^verbatim>\<open>id\<close>.\<close>

definition ObjectId_isValid :: "string \<Rightarrow> bool" where
  "ObjectId_isValid ident = (case ObjectId_new ident of Inl _ \<Rightarrow> False | Inr _ \<Rightarrow> True)"

text \<open>\<^verbatim>\<open>oid.toHexString()\<close>, the form in which an id appears in a JSON response and in a path.\<close>

definition toHexString :: "objectid \<Rightarrow> string" where
  "toHexString oid = map hex_char oid"

text \<open>What the driver generates: twelve bytes, that is 24 digits below 16.\<close>

definition wf_objectid :: "objectid \<Rightarrow> bool" where
  "wf_objectid oid = (length oid = 24 \<and> list_all (\<lambda>d. d < 16) oid)"

section \<open>The process and its store\<close>

text \<open>
  \<open>client\<close> and \<open>db\<close> are the two module variables of \<^verbatim>\<open>src/db.js\<close>. A \<^verbatim>\<open>MongoClient\<close>
  object is identified by the order of its construction; \<open>allocated\<close> counts the objects
  constructed so far and \<open>live\<close> holds those whose connection is established. \<open>items\<close> is
  the collection \<^verbatim>\<open>'items'\<close> on the server in its natural order, and \<open>oplog\<close> records
  every call the process issues on the collection, in order.
\<close>

datatype db_handle = Db nat

datatype store_call =
    InsertOne document
  | FindOne objectid
  | Find
  | FindOneAndUpdate objectid document
  | DeleteOne objectid

record state =
  client :: "nat option"
  db :: "db_handle option"
  allocated :: nat
  live :: "nat set"
  items :: "document list"
  oplog :: "store_call list"

definition initial :: state where
  "initial = \<lparr>client = None, db = None, allocated = 0, live = {}, items = [], oplog = []\<rparr>"

subsection \<open>Connection manager (\<^verbatim>\<open>src/db.js\<close>)\<close>

text \<open>
  \<open>net uri\<close> is what the world answers to a connection attempt at \<open>uri\<close>: the string is
  no connection string and \<^verbatim>\<open>new MongoClient(uri)\<close> throws; or the client is constructed
  and \<^verbatim>\<open>await client.connect()\<close> is refused; or the connection is established. The
  source assigns \<open>client\<close> before it awaits the connection and \<open>db\<close> after it, so a
  refused connection leaves \<open>client\<close> set and \<open>db\<close> null; the \<^verbatim>\<open>catch\<close> block rethrows.

  \<open>connectToDatabase\<close> and \<open>closeDatabase\<close> are \<^verbatim>\<open>async\<close>. The two definitions here are
  the effect of a whole call during whose \<^verbatim>\<open>await\<close> no other code of the process runs.
  The parts of a call before and after its \<^verbatim>\<open>await\<close>, and the executions in which calls
  overlap, follow the handlers.
\<close>

datatype connect_outcome = Malformed | Refused | Accepted

definition connectToDatabase :: "(string \<Rightarrow> connect_outcome) \<Rightarrow> string \<Rightarrow> state \<Rightarrow> (error + db_handle) \<times> state" where
  "connectToDatabase net uri s =
     (case db s of
        Some h \<Rightarrow> (Inr h, s)
      | None \<Rightarrow>
          (case net uri of
             Malformed \<Rightarrow> (Inl ParseError, s)
           | Refused \<Rightarrow>
               (let c = allocated s;
                    s1 = s\<lparr>client := Some c, allocated := Suc c\<rparr>
                in (Inl ConnectionError, s1))
           | Accepted \<Rightarrow>
               (let c = allocated s;
                    s1 = s\<lparr>client := Some c, allocated := Suc c\<rparr>;
                    s2 = s1\<lparr>live := insert c (live s1)\<rparr>;
                    s3 = s2\<lparr>db := Some (Db c)\<rparr>
                in (Inr (Db c), s3))))"

text \<open>
  \<^verbatim>\<open>client.close()\<close> ends the connection of the client it is called on (and is taken to
  resolve, as the driver's does).
\<close>

definition closeDatabase :: "state \<Rightarrow> state" where
  "closeDatabase s =
     (case client s of
        None \<Rightarrow> s
      | Some c \<Rightarrow> s\<lparr>live := live s - {c}, client := None, db := None\<rparr>)"

definition getDatabase :: "state \<Rightarrow> error + db_handle" where
  "getDatabase s = (case db s of None \<Rightarrow> Inl NotConnected | Some h \<Rightarrow> Inr h)"

text \<open>A handle is usable when it is stored and the connection of its client is established.\<close>

definition connected :: "state \<Rightarrow> bool" where
  "connected s = (case db s of None \<Rightarrow> False | Some (Db c) \<Rightarrow> client s = Some c \<and> c \<in> live s)"

subsection \<open>The driver's collection operations\<close>

text \<open>
  What a request finds outside the process: the clock read by \<^verbatim>\<open>new Date()\<close>, the id the
  driver generates for an inserted document, and for each kind of collection call whether
  its round trip is rejected (network failure, timeout).
\<close>

datatype op_kind = OpInsertOne | OpFindOne | OpFind | OpFindOneAndUpdate | OpDeleteOne

record env =
  now :: nat
  new_id :: objectid
  fault :: "op_kind \<Rightarrow> bool"

definition round_trip_ok :: "env \<Rightarrow> op_kind \<Rightarrow> db_handle \<Rightarrow> state \<Rightarrow> bool" where
  "round_trip_ok e k h s = (case h of Db c \<Rightarrow> c \<in> live s \<and> \<not> fault e k)"

definition matches_id :: "objectid \<Rightarrow> document \<Rightarrow> bool" where
  "matches_id oid d = (map_of d ''_id'' = Some (ObjId oid))"

definition logged :: "store_call \<Rightarrow> state \<Rightarrow> state" where
  "logged c s = s\<lparr>oplog := oplog s @ [c]\<rparr>"

text \<open>
  \<^verbatim>\<open>insertOne(doc)\<close>: the driver generates the \<^verbatim>\<open>_id\<close>; the server rejects a document
  whose \<^verbatim>\<open>_id\<close> is already in the collection and appends any other. The result carries
  \<^verbatim>\<open>insertedId\<close>.
\<close>

definition insertOne :: "env \<Rightarrow> db_handle \<Rightarrow> document \<Rightarrow> state \<Rightarrow> (error + objectid) \<times> state" where
  "insertOne e h doc s =
     (let s1 = logged (InsertOne doc) s in
      if \<not> round_trip_ok e OpInsertOne h s then (Inl StoreFailure, s1)
      else if list_ex (matches_id (new_id e)) (items s) then (Inl DuplicateKey, s1)
      else (Inr (new_id e),
            s1\<lparr>items := items s @ [(''_id'', ObjId (new_id e)) # serialize doc]\<rparr>))"

text \<open>\<^verbatim>\<open>findOne({ _id: oid })\<close>: the first matching document, or null.\<close>

definition findOne :: "env \<Rightarrow> db_handle \<Rightarrow> objectid \<Rightarrow> state \<Rightarrow> (error + document option) \<times> state" where
  "findOne e h oid s =
     (let s1 = logged (FindOne oid) s in
      if \<not> round_trip_ok e OpFindOne h s then (Inl StoreFailure, s1)
      else (Inr (find (matches_id oid) (items s)), s1))"

text \<open>\<^verbatim>\<open>find().toArray()\<close>\<close>

definition find_toArray :: "env \<Rightarrow> db_handle \<Rightarrow> state \<Rightarrow> (error + document list) \<times> state" where
  "find_toArray e h s =
     (let s1 = logged Find s in
      if \<not> round_trip_ok e OpFind h s then (Inl StoreFailure, s1)
      else (Inr (items s), s1))"

fun update_first :: "('a \<Rightarrow> bool) \<Rightarrow> ('a \<Rightarrow> 'a) \<Rightarrow> 'a list \<Rightarrow> 'a option \<times> 'a list" where
  "update_first P f [] = (None, [])"
| "update_first P f (x # xs) =
     (if P x then (Some (f x), f x # xs)
      else (case update_first P f xs of (r, ys) \<Rightarrow> (r, x # ys)))"

text \<open>
  \<^verbatim>\<open>findOneAndUpdate({ _id: oid }, { $set: upd }, { returnDocument: 'after' })\<close>: one step
  on the server that changes the first matching document and returns it as changed, or
  returns null when none matches.
\<close>

definition findOneAndUpdate :: "env \<Rightarrow> db_handle \<Rightarrow> objectid \<Rightarrow> document \<Rightarrow> state \<Rightarrow> (error + document option) \<times> state" where
  "findOneAndUpdate e h oid upd s =
     (let s1 = logged (FindOneAndUpdate oid upd) s in
      if \<not> round_trip_ok e OpFindOneAndUpdate h s then (Inl StoreFailure, s1)
      else (case update_first (matches_id oid) (apply_set upd) (items s) of
              (r, ys) \<Rightarrow> (Inr r, s1\<lparr>items := ys\<rparr>)))"

fun delete_first :: "('a \<Rightarrow> bool) \<Rightarrow> 'a list \<Rightarrow> nat \<times> 'a list" where
  "delete_first P [] = (0, [])"
| "delete_first P (x # xs) =
     (if P x then (1, xs) else (case delete_first P xs of (n, ys) \<Rightarrow> (n, x # ys)))"

text \<open>\<^verbatim>\<open>deleteOne({ _id: oid })\<close>: removes the first matching document; the result is \<^verbatim>\<open>deletedCount\<close>.\<close>

definition deleteOne :: "env \<Rightarrow> db_handle \<Rightarrow> objectid \<Rightarrow> state \<Rightarrow> (error + nat) \<times> state" where
  "deleteOne e h oid s =
     (let s1 = logged (DeleteOne oid) s in
      if \<not> round_trip_ok e OpDeleteOne h s then (Inl StoreFailure, s1)
      else (case delete_first (matches_id oid) (items s) of
              (n, ys) \<Rightarrow> (Inr n, s1\<lparr>items := ys\<rparr>)))"

section \<open>Item resource handlers (\<^verbatim>\<open>src/routes/items.js\<close>)\<close>

text \<open>
  A response is its status and its JSON body. Every handler is one \<^verbatim>\<open>try\<close> block whose
  \<^verbatim>\<open>catch\<close> answers 500 with a fixed message, so each throwing step below has a 500 branch.
  The request body is the parsed JSON object \<^verbatim>\<open>req.body\<close>.
\<close>

datatype body =
    ErrorBody string
  | DocBody "document option"
  | DocsBody "document list"
  | MessageBody string

type_synonym response = "nat \<times> body"

text \<open>\<^verbatim>\<open>router.post('/')\<close>\<close>

definition create_item :: "env \<Rightarrow> document \<Rightarrow> state \<Rightarrow> response \<times> state" where
  "create_item e req_body s =
     (let name = field req_body ''name'';
          description = field req_body ''description''
      in if \<not> truthy name then ((400, ErrorBody ''Name is required''), s)
         else (case getDatabase s of
                 Inl err \<Rightarrow> ((500, ErrorBody ''Failed to create item''), s)
               | Inr h \<Rightarrow>
                   (case insertOne e h
                           [(''name'', name),
                            (''description'', js_or description (Str [])),
                            (''createdAt'', Date (now e))] s of
                      (Inl err, s1) \<Rightarrow> ((500, ErrorBody ''Failed to create item''), s1)
                    | (Inr insertedId, s1) \<Rightarrow>
                        (case findOne e h insertedId s1 of
                           (Inl err, s2) \<Rightarrow> ((500, ErrorBody ''Failed to create item''), s2)
                         | (Inr item, s2) \<Rightarrow> ((201, DocBody item), s2)))))"

text \<open>\<^verbatim>\<open>router.get('/')\<close>\<close>

definition list_items :: "env \<Rightarrow> state \<Rightarrow> response \<times> state" where
  "list_items e s =
     (case getDatabase s of
        Inl err \<Rightarrow> ((500, ErrorBody ''Failed to fetch items''), s)
      | Inr h \<Rightarrow>
          (case find_toArray e h s of
             (Inl err, s1) \<Rightarrow> ((500, ErrorBody ''Failed to fetch items''), s1)
           | (Inr docs, s1) \<Rightarrow> ((200, DocsBody docs), s1)))"

text \<open>\<^verbatim>\<open>router.get('/:id')\<close>\<close>

definition get_item :: "env \<Rightarrow> string \<Rightarrow> state \<Rightarrow> response \<times> state" where
  "get_item e ident s =
     (if \<not> ObjectId_isValid ident then ((400, ErrorBody ''Invalid ID format''), s)
      else (case getDatabase s of
              Inl err \<Rightarrow> ((500, ErrorBody ''Failed to fetch item''), s)
            | Inr h \<Rightarrow>
                (case ObjectId_new ident of
                   Inl err \<Rightarrow> ((500, ErrorBody ''Failed to fetch item''), s)
                 | Inr oid \<Rightarrow>
                     (case findOne e h oid s of
                        (Inl err, s1) \<Rightarrow> ((500, ErrorBody ''Failed to fetch item''), s1)
                      | (Inr None, s1) \<Rightarrow> ((404, ErrorBody ''Item not found''), s1)
                      | (Inr (Some item), s1) \<Rightarrow> ((200, DocBody (Some item)), s1)))))"

text \<open>\<^verbatim>\<open>router.put('/:id')\<close>\<close>

definition update_item :: "env \<Rightarrow> string \<Rightarrow> document \<Rightarrow> state \<Rightarrow> response \<times> state" where
  "update_item e ident req_body s =
     (let name = field req_body ''name'';
          description = field req_body ''description''
      in if \<not> ObjectId_isValid ident then ((400, ErrorBody ''Invalid ID format''), s)
         else (case getDatabase s of
                 Inl err \<Rightarrow> ((500, ErrorBody ''Failed to update item''), s)
               | Inr h \<Rightarrow>
                   (case ObjectId_new ident of
                      Inl err \<Rightarrow> ((500, ErrorBody ''Failed to update item''), s)
                    | Inr oid \<Rightarrow>
                        (case findOneAndUpdate e h oid
                                [(''name'', name),
                                 (''description'', description),
                                 (''updatedAt'', Date (now e))] s of
                           (Inl err, s1) \<Rightarrow> ((500, ErrorBody ''Failed to update item''), s1)
                         | (Inr None, s1) \<Rightarrow> ((404, ErrorBody ''Item not found''), s1)
                         | (Inr (Some result), s1) \<Rightarrow> ((200, DocBody (Some result)), s1)))))"

text \<open>\<^verbatim>\<open>router.delete('/:id')\<close>\<close>

definition delete_item :: "env \<Rightarrow> string \<Rightarrow> state \<Rightarrow> response \<times> state" where
  "delete_item e ident s =
     (if \<not> ObjectId_isValid ident then ((400, ErrorBody ''Invalid ID format''), s)
      else (case getDatabase s of
              Inl err \<Rightarrow> ((500, ErrorBody ''Failed to delete item''), s)
            | Inr h \<Rightarrow>
                (case ObjectId_new ident of
                   Inl err \<Rightarrow> ((500, ErrorBody ''Failed to delete item''), s)
                 | Inr oid \<Rightarrow>
                     (case deleteOne e h oid s of
                        (Inl err, s1) \<Rightarrow> ((500, ErrorBody ''Failed to delete item''), s1)
                      | (Inr deletedCount, s1) \<Rightarrow>
                          (if deletedCount = 0 then ((404, ErrorBody ''Item not found''), s1)
                           else ((200, MessageBody ''Item deleted successfully''), s1))))))"

section \<open>Calls that suspend\<close>

text \<open>
  The two functions of \<^verbatim>\<open>src/db.js\<close> that change the connection state are \<^verbatim>\<open>async\<close>: a
  call runs up to its \<^verbatim>\<open>await\<close>, other code of the process may run, and the call continues
  when the awaited promise settles. \<open>connectToDatabase\<close> and \<open>closeDatabase\<close> above are the
  effect of a call during whose \<^verbatim>\<open>await\<close> nothing else runs. Here are the two parts of each
  call on their own. What a suspended call keeps is its task: for a connect, the client it
  constructed and whether \<^verbatim>\<open>client.connect()\<close> will resolve; a close keeps nothing.
\<close>

datatype task = ConnectWait nat bool | CloseWait

datatype 'a progress = Returned 'a | Awaiting task

text \<open>
  \<^verbatim>\<open>connectToDatabase\<close> up to \<^verbatim>\<open>await client.connect()\<close>: the test of \<open>db\<close>, the construction
  of the client and its assignment to the module variable.
\<close>

definition connect_begin :: "(string \<Rightarrow> connect_outcome) \<Rightarrow> string \<Rightarrow> state \<Rightarrow> (error + db_handle) progress \<times> state" where
  "connect_begin net uri s =
     (case db s of
        Some h \<Rightarrow> (Returned (Inr h), s)
      | None \<Rightarrow>
          (case net uri of
             Malformed \<Rightarrow> (Returned (Inl ParseError), s)
           | Refused \<Rightarrow>
               (let c = allocated s
                in (Awaiting (ConnectWait c False), s\<lparr>client := Some c, allocated := Suc c\<rparr>))
           | Accepted \<Rightarrow>
               (let c = allocated s
                in (Awaiting (ConnectWait c True), s\<lparr>client := Some c, allocated := Suc c\<rparr>))))"

text \<open>
  \<^verbatim>\<open>connectToDatabase\<close> from its \<^verbatim>\<open>await\<close> on. If the connection of the client \<open>c\<close> that the
  call constructed was refused, the call throws. If it is established, the call reads the
  module variable \<open>client\<close> again for \<^verbatim>\<open>db = client.db()\<close>: it stores the handle of whichever
  client the variable holds by then, and throws a \<^verbatim>\<open>TypeError\<close> if the variable is null.
\<close>

definition connect_resume :: "nat \<Rightarrow> bool \<Rightarrow> state \<Rightarrow> (error + db_handle) \<times> state" where
  "connect_resume c resolves s =
     (if resolves then
        (let s1 = s\<lparr>live := insert c (live s)\<rparr>
         in case client s1 of
              None \<Rightarrow> (Inl TypeError, s1)
            | Some c' \<Rightarrow> (Inr (Db c'), s1\<lparr>db := Some (Db c')\<rparr>))
      else (Inl ConnectionError, s))"

text \<open>
  \<^verbatim>\<open>closeDatabase\<close> up to \<^verbatim>\<open>await client.close()\<close>, which is called on the client the module
  variable holds then, and from the \<^verbatim>\<open>await\<close> on: the two assignments of null.
\<close>

definition close_begin :: "state \<Rightarrow> unit progress \<times> state" where
  "close_begin s =
     (case client s of
        None \<Rightarrow> (Returned (), s)
      | Some c \<Rightarrow> (Awaiting CloseWait, s\<lparr>live := live s - {c}\<rparr>))"

definition close_resume :: "state \<Rightarrow> state" where
  "close_resume s = s\<lparr>client := None, db := None\<rparr>"

text \<open>One call of the driver on the collection, as a handler issues it, with its effect on the state.\<close>

definition perform :: "env \<Rightarrow> db_handle \<Rightarrow> store_call \<Rightarrow> state \<Rightarrow> state" where
  "perform e h c s =
     (case c of
        InsertOne doc \<Rightarrow> snd (insertOne e h doc s)
      | FindOne oid \<Rightarrow> snd (findOne e h oid s)
      | Find \<Rightarrow> snd (find_toArray e h s)
      | FindOneAndUpdate oid upd \<Rightarrow> snd (findOneAndUpdate e h oid upd s)
      | DeleteOne oid \<Rightarrow> snd (deleteOne e h oid s))"

definition performs :: "env \<Rightarrow> (db_handle \<times> store_call) list \<Rightarrow> state \<Rightarrow> state" where
  "performs e ops s = fold (\<lambda>(h, c). perform e h c) ops s"

section \<open>Executions of the process\<close>

text \<open>
  The process is the state together with the suspended calls of the connection manager.
  An event is: a call of \<^verbatim>\<open>connectToDatabase\<close> or of \<^verbatim>\<open>closeDatabase\<close> begins and runs to its
  \<^verbatim>\<open>await\<close> (or returns or throws before it); a suspended call continues; a handler issues a
  call on the collection. The handlers change the state through their calls on the
  collection only, so an execution is any order of these events: calls of the connection
  manager may overlap one another and the requests.
\<close>

record process =
  mem :: state
  pending :: "task list"

definition start :: process where
  "start = \<lparr>mem = initial, pending = []\<rparr>"

datatype event =
    ConnectCall connect_outcome string
  | CloseCall
  | Resume nat
  | StoreOp env db_handle store_call

fun fire :: "event \<Rightarrow> process \<Rightarrow> process" where
  "fire (ConnectCall oc uri) p =
     (case connect_begin (\<lambda>u. oc) uri (mem p) of
        (Returned r, s) \<Rightarrow> p\<lparr>mem := s\<rparr>
      | (Awaiting t, s) \<Rightarrow> p\<lparr>mem := s, pending := pending p @ [t]\<rparr>)"
| "fire CloseCall p =
     (case close_begin (mem p) of
        (Returned r, s) \<Rightarrow> p\<lparr>mem := s\<rparr>
      | (Awaiting t, s) \<Rightarrow> p\<lparr>mem := s, pending := pending p @ [t]\<rparr>)"
| "fire (Resume i) p =
     (if i < length (pending p) then
        (case pending p ! i of
           ConnectWait c resolves \<Rightarrow>
             p\<lparr>mem := snd (connect_resume c resolves (mem p)),
               pending := take i (pending p) @ drop (Suc i) (pending p)\<rparr>
         | CloseWait \<Rightarrow>
             p\<lparr>mem := close_resume (mem p),
               pending := take i (pending p) @ drop (Suc i) (pending p)\<rparr>)
      else p)"
| "fire (StoreOp e h c) p = p\<lparr>mem := perform e h c (mem p)\<rparr>"

definition exec :: "event list \<Rightarrow> process \<Rightarrow> process" where
  "exec evs p = fold fire evs p"

text \<open>
  What every execution keeps: a stored handle is the handle of the stored client, and the
  stored client, the established connections and the clients of suspended connects are
  clients that were constructed.
\<close>

definition task_ok :: "nat \<Rightarrow> task \<Rightarrow> bool" where
  "task_ok n t = (case t of ConnectWait c resolves \<Rightarrow> c < n | CloseWait \<Rightarrow> True)"

definition proc_inv :: "process \<Rightarrow> bool" where
  "proc_inv p =
     ((case db (mem p) of None \<Rightarrow> True | Some (Db c) \<Rightarrow> client (mem p) = Some c) \<and>
      (case client (mem p) of None \<Rightarrow> True | Some c \<Rightarrow> c < allocated (mem p)) \<and>
      (\<forall>c \<in> live (mem p). c < allocated (mem p)) \<and>
      list_all (task_ok (allocated (mem p))) (pending p))"

text \<open>No suspended connect will be established.\<close>

definition none_resolving :: "task list \<Rightarrow> bool" where
  "none_resolving ts = list_all (\<lambda>t. case t of ConnectWait c resolves \<Rightarrow> \<not> resolves | CloseWait \<Rightarrow> True) ts"

text \<open>No connect call of the events is accepted.\<close>

definition none_accepted :: "event list \<Rightarrow> bool" where
  "none_accepted evs = list_all (\<lambda>ev. case ev of ConnectCall oc uri \<Rightarrow> oc \<noteq> Accepted | _ \<Rightarrow> True) evs"

section \<open>Runs without overlap\<close>

text \<open>
  A run in which every call is finished before the next begins: a sequence of whole calls
  of the connection manager and of the handlers.
\<close>

datatype action =
    Connect connect_outcome string
  | Close
  | Create env document
  | ListAll env
  | Get env string
  | Update env string document
  | Delete env string

fun step :: "action \<Rightarrow> state \<Rightarrow> state" where
  "step (Connect up uri) s = snd (connectToDatabase (\<lambda>u. up) uri s)"
| "step Close s = closeDatabase s"
| "step (Create e b) s = snd (create_item e b s)"
| "step (ListAll e) s = snd (list_items e s)"
| "step (Get e i) s = snd (get_item e i s)"
| "step (Update e i b) s = snd (update_item e i b s)"
| "step (Delete e i) s = snd (delete_item e i s)"

definition run_sequential :: "action list \<Rightarrow> state \<Rightarrow> state" where
  "run_sequential acts s = fold step acts s"

text \<open>
  The shape of the connection state that every run without overlap keeps: a stored handle
  belongs to the stored client, and its connection is established.
\<close>

definition conn_inv :: "state \<Rightarrow> bool" where
  "conn_inv s =
     ((case db s of None \<Rightarrow> True | Some (Db c) \<Rightarrow> client s = Some c \<and> c \<in> live s) \<and>
      (case client s of None \<Rightarrow> True | Some c \<Rightarrow> c < allocated s) \<and>
      (\<forall>c \<in> live s. c < allocated s))"

text \<open>The part of the state that the connection manager owns.\<close>

definition conn_of :: "state \<Rightarrow> nat option \<times> db_handle option \<times> nat \<times> nat set" where
  "conn_of s = (client s, db s, allocated s, live s)"

subsection \<open>Sample inputs\<close>

text \<open>
  The state after the first \<^verbatim>\<open>connectToDatabase\<close> of a process was accepted, and after it
  was rejected; two environments, at different times, in which no round trip fails; the id
  \<^verbatim>\<open>6584a1b2c3d4e5f6a7b8c9d0\<close> of the README's examples.
\<close>

definition after_connect :: state where
  "after_connect = snd (connectToDatabase (\<lambda>u. Accepted) ''mongodb://localhost:27017/demo'' initial)"

definition after_failed_connect :: state where
  "after_failed_connect = snd (connectToDatabase (\<lambda>u. Refused) ''mongodb://localhost:27017/demo'' initial)"

text \<open>
  Two calls of \<^verbatim>\<open>connectToDatabase\<close> that overlap: the second begins while the first awaits
  its connection; the first is accepted, the second is refused.
\<close>

definition after_overlap :: process where
  "after_overlap = exec [ConnectCall Accepted ''mongodb://localhost:27017/demo'',
                         ConnectCall Refused ''mongodb://localhost:27017/demo'',
                         Resume 0, Resume 0] start"

definition sample_id :: objectid where
  "sample_id = [6, 5, 8, 4, 10, 1, 11, 2, 12, 3, 13, 4, 14, 5, 15, 6, 10, 7, 11, 8, 12, 9, 13, 0]"

definition env1 :: env where
  "env1 = \<lparr>now = 1000, new_id = sample_id, fault = (\<lambda>k. False)\<rparr>"

definition env2 :: env where
  "env2 = \<lparr>now = 2000, new_id = sample_id, fault = (\<lambda>k. False)\<rparr>"

text \<open>The document that creating \<open>{name: "X", description: "Y"}\<close> in \<open>env1\<close> stores, and the state after it.\<close>

definition sample_doc :: document where
  "sample_doc = [(''_id'', ObjId sample_id), (''name'', Str ''X''), (''description'', Str ''Y''),
                 (''createdAt'', Date 1000)]"

definition with_item :: state where
  "with_item = snd (create_item env1 [(''name'', Str ''X''), (''description'', Str ''Y'')] after_connect)"

section \<open>Connection manager: properties\<close>

lemma connect_existing:
  "db s = Some h \<Longrightarrow> connectToDatabase net uri s = (Inr h, s)"
  by (simp add: connectToDatabase_def)

lemma connect_fresh:
  "db s = None \<Longrightarrow> net uri = Accepted \<Longrightarrow>
   connectToDatabase net uri s =
     (Inr (Db (allocated s)),
      s\<lparr>client := Some (allocated s), allocated := Suc (allocated s),
        live := insert (allocated s) (live s), db := Some (Db (allocated s))\<rparr>)"
  by (simp add: connectToDatabase_def Let_def)

lemma connect_refused:
  "db s = None \<Longrightarrow> net uri = Refused \<Longrightarrow>
   connectToDatabase net uri s =
     (Inl ConnectionError, s\<lparr>client := Some (allocated s), allocated := Suc (allocated s)\<rparr>)"
  by (simp add: connectToDatabase_def Let_def)

lemma connect_malformed:
  "db s = None \<Longrightarrow> net uri = Malformed \<Longrightarrow> connectToDatabase net uri s = (Inl ParseError, s)"
  by (simp add: connectToDatabase_def)

lemma close_fields:
  "client s = Some c \<Longrightarrow> closeDatabase s = s\<lparr>live := live s - {c}, client := None, db := None\<rparr>"
  "client s = None \<Longrightarrow> closeDatabase s = s"
  by (simp_all add: closeDatabase_def)

lemma after_connect_eq:
  "after_connect = \<lparr>client = Some 0, db = Some (Db 0), allocated = 1, live = {0}, items = [], oplog = []\<rparr>"
  by (simp add: after_connect_def connectToDatabase_def initial_def)

lemma after_failed_connect_eq:
  "after_failed_connect = \<lparr>client = Some 0, db = None, allocated = 1, live = {}, items = [], oplog = []\<rparr>"
  by (simp add: after_failed_connect_def connectToDatabase_def initial_def)

subsection \<open>No operation on the collection touches the connection state\<close>

lemma logged_fields [simp]:
  "client (logged c s) = client s" "db (logged c s) = db s"
  "allocated (logged c s) = allocated s" "live (logged c s) = live s"
  "items (logged c s) = items s" "oplog (logged c s) = oplog s @ [c]"
  by (simp_all add: logged_def)

lemma insertOne_conn: "conn_of (snd (insertOne e h doc s)) = conn_of s"
  by (simp add: insertOne_def conn_of_def Let_def)

lemma findOne_conn: "conn_of (snd (findOne e h oid s)) = conn_of s"
  by (simp add: findOne_def conn_of_def Let_def)

lemma find_toArray_conn: "conn_of (snd (find_toArray e h s)) = conn_of s"
  by (simp add: find_toArray_def conn_of_def Let_def)

lemma findOneAndUpdate_conn: "conn_of (snd (findOneAndUpdate e h oid upd s)) = conn_of s"
  by (simp add: findOneAndUpdate_def conn_of_def Let_def split: prod.splits)

lemma deleteOne_conn: "conn_of (snd (deleteOne e h oid s)) = conn_of s"
  by (simp add: deleteOne_def conn_of_def Let_def split: prod.splits)

lemma create_item_conn: "conn_of (snd (create_item e b s)) = conn_of s"
proof -
  have a: "\<And>h doc s1 r. insertOne e h doc s = (r, s1) \<Longrightarrow> conn_of s1 = conn_of s"
    using insertOne_conn by (metis snd_conv)
  have b: "\<And>h oid s1 s2 r. findOne e h oid s1 = (r, s2) \<Longrightarrow> conn_of s2 = conn_of s1"
    using findOne_conn by (metis snd_conv)
  show ?thesis
    by (auto simp: create_item_def Let_def split: sum.splits prod.splits dest!: a b)
qed

lemma list_items_conn: "conn_of (snd (list_items e s)) = conn_of s"
  using find_toArray_conn [of e _ s]
  by (auto simp: list_items_def split: sum.splits prod.splits) (metis snd_conv)+

lemma get_item_conn: "conn_of (snd (get_item e i s)) = conn_of s"
  using findOne_conn [of e _ _ s]
  by (auto simp: get_item_def split: sum.splits prod.splits option.splits) (metis snd_conv)+

lemma update_item_conn: "conn_of (snd (update_item e i b s)) = conn_of s"
  using findOneAndUpdate_conn [of e _ _ _ s]
  by (auto simp: update_item_def Let_def split: sum.splits prod.splits option.splits) (metis snd_conv)+

lemma delete_item_conn: "conn_of (snd (delete_item e i s)) = conn_of s"
  using deleteOne_conn [of e _ _ s]
  by (auto simp: delete_item_def split: sum.splits prod.splits option.splits) (metis snd_conv)+

subsection \<open>The invariant of the connection state\<close>

lemma conn_inv_conn_of: "conn_of s' = conn_of s \<Longrightarrow> conn_inv s' = conn_inv s"
  by (auto simp: conn_of_def conn_inv_def split: option.splits db_handle.splits)

lemma conn_inv_initial: "conn_inv initial"
  by (simp add: conn_inv_def initial_def)

lemma conn_inv_connect: "conn_inv s \<Longrightarrow> conn_inv (snd (connectToDatabase net uri s))"
  by (auto simp: conn_inv_def connectToDatabase_def Let_def less_Suc_eq
           split: option.splits db_handle.splits connect_outcome.splits)

lemma conn_inv_close: "conn_inv s \<Longrightarrow> conn_inv (closeDatabase s)"
  by (auto simp: conn_inv_def closeDatabase_def split: option.splits db_handle.splits)

lemma conn_inv_step: "conn_inv s \<Longrightarrow> conn_inv (step a s)"
proof (cases a)
  case (Connect up uri)
  assume "conn_inv s"
  with Connect show ?thesis by (simp add: conn_inv_connect)
next
  case Close
  assume "conn_inv s"
  with Close show ?thesis by (simp add: conn_inv_close)
next
  case (Create e b)
  assume "conn_inv s"
  with Create show ?thesis by (simp add: conn_inv_conn_of [OF create_item_conn])
next
  case (ListAll e)
  assume "conn_inv s"
  with ListAll show ?thesis by (simp add: conn_inv_conn_of [OF list_items_conn])
next
  case (Get e i)
  assume "conn_inv s"
  with Get show ?thesis by (simp add: conn_inv_conn_of [OF get_item_conn])
next
  case (Update e i b)
  assume "conn_inv s"
  with Update show ?thesis by (simp add: conn_inv_conn_of [OF update_item_conn])
next
  case (Delete e i)
  assume "conn_inv s"
  with Delete show ?thesis by (simp add: conn_inv_conn_of [OF delete_item_conn])
qed

lemma conn_inv_run: "conn_inv s \<Longrightarrow> conn_inv (run_sequential acts s)"
  unfolding run_sequential_def by (induction acts arbitrary: s) (simp_all add: conn_inv_step)

lemma conn_inv_reachable: "conn_inv (run_sequential acts initial)"
  by (rule conn_inv_run [OF conn_inv_initial])

lemma conn_inv_connected: "conn_inv s \<Longrightarrow> db s \<noteq> None \<Longrightarrow> connected s"
  by (auto simp: conn_inv_def connected_def split: option.splits db_handle.splits)

lemma conn_inv_client: "conn_inv s \<Longrightarrow> db s \<noteq> None \<Longrightarrow> client s \<noteq> None"
  by (auto simp: conn_inv_def split: option.splits db_handle.splits)

subsection \<open>The two parts of a call\<close>

lemma connect_begin_returned:
  "connect_begin net uri s = (Returned r, s1) \<Longrightarrow> connectToDatabase net uri s = (r, s1)"
  by (auto simp: connect_begin_def connectToDatabase_def Let_def
           split: option.splits connect_outcome.splits)

lemma connect_begin_awaiting:
  assumes "connect_begin net uri s = (Awaiting t, s1)"
  shows "\<exists>c resolves. t = ConnectWait c resolves \<and>
           connectToDatabase net uri s = connect_resume c resolves s1"
proof (cases "db s")
  case (Some h)
  with assms show ?thesis by (simp add: connect_begin_def)
next
  case None
  show ?thesis
  proof (cases "net uri")
    case Malformed
    with None assms show ?thesis by (simp add: connect_begin_def)
  next
    case Refused
    with None assms have t: "t = ConnectWait (allocated s) False"
      and s1: "s1 = s\<lparr>client := Some (allocated s), allocated := Suc (allocated s)\<rparr>"
      by (simp_all add: connect_begin_def Let_def)
    have "connectToDatabase net uri s = connect_resume (allocated s) False s1"
      using None Refused by (simp add: connectToDatabase_def connect_resume_def Let_def s1)
    with t show ?thesis by blast
  next
    case Accepted
    with None assms have t: "t = ConnectWait (allocated s) True"
      and s1: "s1 = s\<lparr>client := Some (allocated s), allocated := Suc (allocated s)\<rparr>"
      by (simp_all add: connect_begin_def Let_def)
    have "connectToDatabase net uri s = connect_resume (allocated s) True s1"
      using None Accepted by (simp add: connectToDatabase_def connect_resume_def Let_def s1)
    with t show ?thesis by blast
  qed
qed

lemma close_begin_returned: "close_begin s = (Returned r, s1) \<Longrightarrow> closeDatabase s = s1"
  by (auto simp: close_begin_def closeDatabase_def split: option.splits)

lemma close_begin_awaiting:
  "close_begin s = (Awaiting t, s1) \<Longrightarrow> t = CloseWait \<and> closeDatabase s = close_resume s1"
  by (auto simp: close_begin_def closeDatabase_def close_resume_def split: option.splits)

lemma connect_begin_db: "db (snd (connect_begin net uri s)) = db s"
  by (simp add: connect_begin_def Let_def split: option.splits connect_outcome.splits)

lemma connect_resume_rejected: "connect_resume c False s = (Inl ConnectionError, s)"
  by (simp add: connect_resume_def)

lemma perform_conn: "conn_of (perform e h c s) = conn_of s"
  by (cases c)
     (simp_all add: perform_def insertOne_conn findOne_conn find_toArray_conn
        findOneAndUpdate_conn deleteOne_conn)

lemma perform_fields:
  "client (perform e h c s) = client s" "db (perform e h c s) = db s"
  "allocated (perform e h c s) = allocated s" "live (perform e h c s) = live s"
  using perform_conn [of e h c s] by (simp_all add: conn_of_def)

subsection \<open>What every execution keeps\<close>

lemma list_all_task_ok_mono: "list_all (task_ok n) ts \<Longrightarrow> n \<le> m \<Longrightarrow> list_all (task_ok m) ts"
  by (induction ts) (auto simp: task_ok_def split: task.splits)

lemma list_all_remove: "list_all P ts \<Longrightarrow> list_all P (take i ts @ drop (Suc i) ts)"
  by (auto simp: list_all_iff dest: in_set_takeD in_set_dropD)

lemma proc_inv_start: "proc_inv start"
  by (simp add: proc_inv_def start_def initial_def)

lemma proc_inv_connect_call:
  assumes "proc_inv p"
  shows "proc_inv (fire (ConnectCall oc uri) p)"
proof (cases "db (mem p)")
  case (Some h)
  with assms show ?thesis
    by (simp add: connect_begin_def proc_inv_def)
next
  case None
  from assms have "list_all (task_ok (allocated (mem p))) (pending p)"
    by (simp add: proc_inv_def)
  then have ts: "list_all (task_ok (Suc (allocated (mem p)))) (pending p)"
    by (rule list_all_task_ok_mono) simp
  from assms have cl: "\<forall>c \<in> live (mem p). c < Suc (allocated (mem p))"
    by (auto simp: proc_inv_def)
  show ?thesis
  proof (cases oc)
    case Malformed
    with None assms show ?thesis
      by (simp add: connect_begin_def proc_inv_def)
  next
    case Refused
    with None ts cl show ?thesis
      by (simp add: connect_begin_def proc_inv_def Let_def task_ok_def)
  next
    case Accepted
    with None ts cl show ?thesis
      by (simp add: connect_begin_def proc_inv_def Let_def task_ok_def)
  qed
qed

lemma proc_inv_close_call: "proc_inv p \<Longrightarrow> proc_inv (fire CloseCall p)"
  by (auto simp: proc_inv_def close_begin_def task_ok_def
           split: option.splits db_handle.splits)

lemma proc_inv_resume: "proc_inv p \<Longrightarrow> proc_inv (fire (Resume i) p)"
proof (cases "i < length (pending p)")
  case False
  assume "proc_inv p"
  with False show ?thesis by simp
next
  case True
  assume inv: "proc_inv p"
  then have all: "list_all (task_ok (allocated (mem p))) (pending p)"
    by (simp add: proc_inv_def)
  with True have ok: "task_ok (allocated (mem p)) (pending p ! i)"
    by (simp add: list_all_length)
  from all have rest: "list_all (task_ok (allocated (mem p))) (take i (pending p) @ drop (Suc i) (pending p))"
    by (rule list_all_remove)
  show ?thesis
  proof (cases "pending p ! i")
    case CloseWait
    with True inv rest show ?thesis
      by (auto simp: proc_inv_def close_resume_def split: option.splits)
  next
    case (ConnectWait c resolves)
    with ok have "c < allocated (mem p)" by (simp add: task_ok_def)
    with ConnectWait True inv rest show ?thesis
      by (auto simp: proc_inv_def connect_resume_def Let_def split: option.splits db_handle.splits)
  qed
qed

lemma proc_inv_store_op: "proc_inv p \<Longrightarrow> proc_inv (fire (StoreOp e h c) p)"
  by (auto simp: proc_inv_def perform_fields split: option.splits db_handle.splits)

lemma proc_inv_fire: "proc_inv p \<Longrightarrow> proc_inv (fire ev p)"
  by (cases ev) (simp_all only: proc_inv_connect_call proc_inv_close_call proc_inv_resume proc_inv_store_op)

lemma proc_inv_exec: "proc_inv p \<Longrightarrow> proc_inv (exec evs p)"
  unfolding exec_def by (induction evs arbitrary: p) (simp_all add: proc_inv_fire)

lemma proc_inv_reachable: "proc_inv (exec evs start)"
  by (rule proc_inv_exec [OF proc_inv_start])

lemma proc_inv_handle: "proc_inv p \<Longrightarrow> db (mem p) = Some h \<Longrightarrow> \<exists>c. h = Db c \<and> client (mem p) = Some c"
  by (cases h) (simp add: proc_inv_def)

lemma proc_inv_fresh:
  "proc_inv p \<Longrightarrow> allocated (mem p) \<notin> live (mem p) \<and> client (mem p) \<noteq> Some (allocated (mem p))"
  by (auto simp: proc_inv_def split: option.splits)

subsection \<open>Only an established connect stores a handle\<close>

lemma handle_set_by_resume:
  assumes "db (mem p) = None" and "db (mem (fire ev p)) \<noteq> None"
  shows "\<exists>i c. ev = Resume i \<and> i < length (pending p) \<and> pending p ! i = ConnectWait c True"
proof (cases ev)
  case (ConnectCall oc uri)
  with assms show ?thesis
    using connect_begin_db [of "\<lambda>u. oc" uri "mem p"]
    by (auto split: prod.splits progress.splits)
next
  case CloseCall
  with assms show ?thesis
    by (auto simp: close_begin_def split: option.splits)
next
  case (Resume i)
  with assms show ?thesis
    by (auto simp: connect_resume_def close_resume_def Let_def
             split: if_splits task.splits option.splits)
next
  case (StoreOp e h c)
  with assms show ?thesis by (simp add: perform_fields)
qed

lemma none_resolving_fire:
  assumes "none_resolving (pending p)" and "none_accepted [ev]"
  shows "none_resolving (pending (fire ev p))"
proof (cases ev)
  case (ConnectCall oc uri)
  with assms show ?thesis
    by (auto simp: none_resolving_def none_accepted_def connect_begin_def Let_def
             split: option.splits connect_outcome.splits)
next
  case CloseCall
  with assms show ?thesis
    by (auto simp: none_resolving_def close_begin_def split: option.splits)
next
  case (Resume i)
  with assms show ?thesis
    using list_all_remove [of _ "pending p" i]
    by (auto simp: none_resolving_def split: task.splits)
next
  case (StoreOp e h c)
  with assms show ?thesis by simp
qed

lemma handle_stays_null_fire:
  assumes "db (mem p) = None" and "none_resolving (pending p)" and "none_accepted [ev]"
  shows "db (mem (fire ev p)) = None"
proof (rule ccontr)
  assume "db (mem (fire ev p)) \<noteq> None"
  with assms(1) obtain i c where "i < length (pending p)" "pending p ! i = ConnectWait c True"
    using handle_set_by_resume by blast
  with assms(2) show False
    by (auto simp: none_resolving_def list_all_length)
qed

lemma handle_stays_null_exec:
  "db (mem p) = None \<Longrightarrow> none_resolving (pending p) \<Longrightarrow> none_accepted evs \<Longrightarrow>
   db (mem (exec evs p)) = None"
proof (induction evs arbitrary: p)
  case Nil
  then show ?case by (simp add: exec_def)
next
  case (Cons ev evs)
  from Cons.prems(3) have one: "none_accepted [ev]" and rest: "none_accepted evs"
    by (simp_all add: none_accepted_def)
  have a: "db (mem (fire ev p)) = None"
    using Cons.prems(1,2) one by (rule handle_stays_null_fire)
  have b: "none_resolving (pending (fire ev p))"
    using Cons.prems(2) one by (rule none_resolving_fire)
  have "db (mem (exec evs (fire ev p))) = None"
    using a b rest by (rule Cons.IH)
  then show ?case by (simp add: exec_def)
qed

subsection \<open>A run without overlap is an execution\<close>

text \<open>
  What a handler does to the state is a sequence of its calls on the collection, and a
  whole call of the connection manager is its beginning followed at once by its
  continuation.
\<close>

lemma performs_simps:
  "performs e [] s = s"
  "performs e [(h, c)] s = perform e h c s"
  "performs e [(h, c), (h', c')] s = perform e h' c' (perform e h c s)"
  by (simp_all add: performs_def)

lemma perform_simps:
  "perform e h (InsertOne doc) s = snd (insertOne e h doc s)"
  "perform e h (FindOne oid) s = snd (findOne e h oid s)"
  "perform e h Find s = snd (find_toArray e h s)"
  "perform e h (FindOneAndUpdate oid upd) s = snd (findOneAndUpdate e h oid upd s)"
  "perform e h (DeleteOne oid) s = snd (deleteOne e h oid s)"
  by (simp_all add: perform_def)

lemma list_items_ops: "\<exists>ops. snd (list_items e s) = performs e ops s"
proof -
  have "snd (list_items e s) = s \<or> (\<exists>h. snd (list_items e s) = perform e h Find s)"
    unfolding perform_simps
    by (auto simp: list_items_def split: sum.splits prod.splits) (metis snd_conv)+
  then show ?thesis
    using performs_simps(1,2) by metis
qed

lemma get_item_ops: "\<exists>ops. snd (get_item e i s) = performs e ops s"
proof -
  have "snd (get_item e i s) = s \<or> (\<exists>h oid. snd (get_item e i s) = perform e h (FindOne oid) s)"
    unfolding perform_simps
    by (auto simp: get_item_def split: sum.splits prod.splits option.splits) (metis snd_conv)+
  then show ?thesis
    using performs_simps(1,2) by metis
qed

lemma update_item_ops: "\<exists>ops. snd (update_item e i b s) = performs e ops s"
proof -
  have "snd (update_item e i b s) = s \<or>
        (\<exists>h oid upd. snd (update_item e i b s) = perform e h (FindOneAndUpdate oid upd) s)"
    unfolding perform_simps
    by (auto simp: update_item_def Let_def split: sum.splits prod.splits option.splits)
       (metis snd_conv)+
  then show ?thesis
    using performs_simps(1,2) by metis
qed

lemma delete_item_ops: "\<exists>ops. snd (delete_item e i s) = performs e ops s"
proof -
  have "snd (delete_item e i s) = s \<or> (\<exists>h oid. snd (delete_item e i s) = perform e h (DeleteOne oid) s)"
    unfolding perform_simps
    by (auto simp: delete_item_def split: sum.splits prod.splits option.splits) (metis snd_conv)+
  then show ?thesis
    using performs_simps(1,2) by metis
qed

lemma create_item_ops: "\<exists>ops. snd (create_item e b s) = performs e ops s"
proof -
  have "snd (create_item e b s) = s \<or>
        (\<exists>h doc. snd (create_item e b s) = perform e h (InsertOne doc) s) \<or>
        (\<exists>h doc oid. snd (create_item e b s) =
            perform e h (FindOne oid) (perform e h (InsertOne doc) s))"
  proof (cases "truthy (field b ''name'')")
    case False
    then show ?thesis by (simp add: create_item_def)
  next
    case True
    show ?thesis
    proof (cases "getDatabase s")
      case (Inl err)
      with True show ?thesis by (simp add: create_item_def)
    next
      case (Inr h)
      define doc where "doc = [(''name'', field b ''name''),
                            (''description'', js_or (field b ''description'') (Str [])),
                            (''createdAt'', Date (now e))]"
      obtain r s1 where ins: "insertOne e h doc s = (r, s1)"
        by (cases "insertOne e h doc s")
      then have s1: "s1 = perform e h (InsertOne doc) s"
        by (simp add: perform_simps)
      show ?thesis
      proof (cases r)
        case (Inl err)
        with True Inr ins have "snd (create_item e b s) = s1"
          by (simp add: create_item_def doc_def)
        with s1 show ?thesis by blast
      next
        case (Inr oid)
        obtain r2 s2 where fo: "findOne e h oid s1 = (r2, s2)"
          by (cases "findOne e h oid s1")
        then have s2: "s2 = perform e h (FindOne oid) s1"
          by (simp add: perform_simps)
        from True \<open>getDatabase s = Inr h\<close> ins Inr fo have "snd (create_item e b s) = s2"
          by (cases r2) (simp_all add: create_item_def doc_def)
        with s1 s2 show ?thesis by blast
      qed
    qed
  qed
  then show ?thesis
    using performs_simps by metis
qed

lemma exec_append: "exec (evs @ evs') p = exec evs' (exec evs p)"
  by (simp add: exec_def)

lemma exec_store_ops:
  "mem (exec (map (\<lambda>(h, c). StoreOp e h c) ops) p) = performs e ops (mem p) \<and>
   pending (exec (map (\<lambda>(h, c). StoreOp e h c) ops) p) = pending p"
  unfolding exec_def performs_def
  by (induction ops arbitrary: p) (simp_all add: case_prod_beta)

lemma connect_as_events:
  assumes "pending p = []"
  shows "mem (exec [ConnectCall oc uri, Resume 0] p) = snd (connectToDatabase (\<lambda>u. oc) uri (mem p)) \<and>
         pending (exec [ConnectCall oc uri, Resume 0] p) = []"
proof (cases "connect_begin (\<lambda>u. oc) uri (mem p)")
  case (Pair pr s1)
  show ?thesis
  proof (cases pr)
    case (Returned r)
    with Pair assms connect_begin_returned [of "\<lambda>u. oc" uri "mem p" r s1] show ?thesis
      by (simp add: exec_def)
  next
    case (Awaiting t)
    with Pair connect_begin_awaiting [of "\<lambda>u. oc" uri "mem p" t s1]
    obtain c resolves where "t = ConnectWait c resolves"
      "connectToDatabase (\<lambda>u. oc) uri (mem p) = connect_resume c resolves s1"
      by blast
    with Pair Awaiting assms show ?thesis
      by (simp add: exec_def)
  qed
qed

lemma close_as_events:
  assumes "pending p = []"
  shows "mem (exec [CloseCall, Resume 0] p) = closeDatabase (mem p) \<and>
         pending (exec [CloseCall, Resume 0] p) = []"
proof (cases "close_begin (mem p)")
  case (Pair pr s1)
  show ?thesis
  proof (cases pr)
    case (Returned r)
    with Pair assms close_begin_returned [of "mem p" r s1] show ?thesis
      by (simp add: exec_def)
  next
    case (Awaiting t)
    with Pair close_begin_awaiting [of "mem p" t s1] assms show ?thesis
      by (simp add: exec_def)
  qed
qed

lemma step_as_events:
  assumes "pending p = []"
  shows "\<exists>evs. mem (exec evs p) = step a (mem p) \<and> pending (exec evs p) = []"
proof (cases a)
  case (Connect oc uri)
  with connect_as_events [OF assms, of oc uri] show ?thesis by auto
next
  case Close
  with close_as_events [OF assms] show ?thesis by auto
next
  case (Create e b)
  obtain ops where "snd (create_item e b (mem p)) = performs e ops (mem p)"
    using create_item_ops by blast
  with Create assms exec_store_ops [of e ops p] show ?thesis by auto
next
  case (ListAll e)
  obtain ops where "snd (list_items e (mem p)) = performs e ops (mem p)"
    using list_items_ops by blast
  with ListAll assms exec_store_ops [of e ops p] show ?thesis by auto
next
  case (Get e i)
  obtain ops where "snd (get_item e i (mem p)) = performs e ops (mem p)"
    using get_item_ops by blast
  with Get assms exec_store_ops [of e ops p] show ?thesis by auto
next
  case (Update e i b)
  obtain ops where "snd (update_item e i b (mem p)) = performs e ops (mem p)"
    using update_item_ops by blast
  with Update assms exec_store_ops [of e ops p] show ?thesis by auto
next
  case (Delete e i)
  obtain ops where "snd (delete_item e i (mem p)) = performs e ops (mem p)"
    using delete_item_ops by blast
  with Delete assms exec_store_ops [of e ops p] show ?thesis by auto
qed

lemma run_sequential_as_exec:
  "pending p = [] \<Longrightarrow>
   \<exists>evs. mem (exec evs p) = run_sequential acts (mem p) \<and> pending (exec evs p) = []"
proof (induction acts arbitrary: p)
  case Nil
  have "mem (exec [] p) = run_sequential [] (mem p) \<and> pending (exec [] p) = []"
    using Nil by (simp add: exec_def run_sequential_def)
  then show ?case by blast
next
  case (Cons a acts)
  from step_as_events [OF Cons.prems, of a] obtain evs1
    where 1: "mem (exec evs1 p) = step a (mem p)" and 2: "pending (exec evs1 p) = []"
    by blast
  from Cons.IH [OF 2] obtain evs2
    where 3: "mem (exec evs2 (exec evs1 p)) = run_sequential acts (mem (exec evs1 p))"
      and 4: "pending (exec evs2 (exec evs1 p)) = []"
    by blast
  have "mem (exec (evs1 @ evs2) p) = run_sequential (a # acts) (mem p) \<and>
        pending (exec (evs1 @ evs2) p) = []"
    using 1 3 4 by (simp add: exec_append run_sequential_def)
  then show ?case by blast
qed

lemma run_sequential_reachable: "\<exists>evs. mem (exec evs start) = run_sequential acts initial"
  using run_sequential_as_exec [of start acts] by (auto simp: start_def)

lemma start_fields: "mem start = initial" "pending start = []"
  by (simp_all add: start_def)

lemma after_connect_exec:
  "mem (exec [ConnectCall Accepted ''mongodb://localhost:27017/demo'', Resume 0] start) = after_connect"
  using connect_as_events [OF start_fields(2), of Accepted "''mongodb://localhost:27017/demo''"]
  by (simp add: after_connect_def start_fields)

lemma after_failed_connect_exec:
  "mem (exec [ConnectCall Refused ''mongodb://localhost:27017/demo'', Resume 0] start) = after_failed_connect"
  using connect_as_events [OF start_fields(2), of Refused "''mongodb://localhost:27017/demo''"]
  by (simp add: after_failed_connect_def start_fields)

lemma after_overlap_eq:
  "after_overlap =
     \<lparr>mem = \<lparr>client = Some 1, db = Some (Db 1), allocated = 2, live = {0}, items = [], oplog = []\<rparr>,
      pending = []\<rparr>"
  by (simp add: after_overlap_def exec_def start_def initial_def connect_begin_def
        connect_resume_def Let_def)

subsection \<open>Claims about the connection manager\<close>

text \<open>
  C2. \<^verbatim>\<open>connectToDatabase\<close> is idempotent: in every state in which a handle is stored it
  returns that handle and leaves the whole state as it is, so no client is constructed and
  no connection is established; and after a call that returned a handle, a further call
  (with any URI, whatever the network does) returns the same handle and changes nothing.
\<close>

theorem connect_idempotent:
  "(db s = Some h \<longrightarrow> connectToDatabase net uri s = (Inr h, s)) \<and>
   (connectToDatabase net uri s = (Inr h, s') \<longrightarrow>
      connectToDatabase net' uri' s' = (Inr h, s'))"
proof -
  have "db s' = Some h" if "connectToDatabase net uri s = (Inr h, s')"
    using that
    by (auto simp: connectToDatabase_def Let_def split: option.splits connect_outcome.splits)
  then show ?thesis
    by (simp add: connect_existing)
qed

text \<open>C2 at the state after the first accepted connect: the second connect changes nothing.\<close>

theorem connect_idempotent_witness:
  "db after_connect = Some (Db 0) \<and>
   connectToDatabase (\<lambda>u. Accepted) ''mongodb://localhost:27017/demo'' initial = (Inr (Db 0), after_connect) \<and>
   connectToDatabase (\<lambda>u. Accepted) ''mongodb://other:27017/demo'' after_connect = (Inr (Db 0), after_connect) \<and>
   allocated after_connect = 1 \<and> live after_connect = {0}"
proof -
  have a: "db after_connect = Some (Db 0)"
    by (simp add: after_connect_eq)
  have b: "connectToDatabase (\<lambda>u. Accepted) ''mongodb://localhost:27017/demo'' initial = (Inr (Db 0), after_connect)"
    by (simp add: after_connect_eq connectToDatabase_def initial_def)
  from connect_idempotent [of after_connect "Db 0" "\<lambda>u. Accepted" "''mongodb://other:27017/demo''"] a
  have "connectToDatabase (\<lambda>u. Accepted) ''mongodb://other:27017/demo'' after_connect = (Inr (Db 0), after_connect)"
    by simp
  with a b show ?thesis by (simp add: after_connect_eq)
qed

text \<open>
  C3 as stated fails. \<^verbatim>\<open>closeDatabase\<close> tests \<open>client\<close>, not \<open>db\<close>. After one connect call
  that was refused no handle exists (\<^verbatim>\<open>getDatabase\<close> throws), yet \<open>client\<close> is set, and
  \<^verbatim>\<open>closeDatabase\<close> closes that client and clears the reference: it does not do nothing.
\<close>

theorem close_without_handle_counterexample:
  "mem (exec [ConnectCall Refused ''mongodb://localhost:27017/demo'', Resume 0] start) = after_failed_connect \<and>
   db after_failed_connect = None \<and>
   getDatabase after_failed_connect = Inl NotConnected \<and>
   closeDatabase after_failed_connect \<noteq> after_failed_connect"
  using after_failed_connect_exec
  by (simp add: after_failed_connect_eq getDatabase_def closeDatabase_def)

text \<open>
  C3, amended: when no client reference exists \<^verbatim>\<open>closeDatabase\<close> does nothing; when a handle
  exists it ends the connection of the handle's client and resets both \<open>client\<close> and \<open>db\<close>;
  after it both references are null and \<^verbatim>\<open>getDatabase\<close> throws, a second
  \<^verbatim>\<open>closeDatabase\<close> changes nothing, and a connect that is accepted returns the handle of
  a newly constructed client. This holds in every state that an execution of the process
  reaches, calls that overlap included, and whatever ran during the \<^verbatim>\<open>await\<close> of a close,
  both references are null when it has finished.
\<close>

theorem close_clears_state:
  assumes "s = mem (exec evs start)" and "s' = closeDatabase s"
  shows "(client s = None \<longrightarrow> s' = s) \<and>
         (db s \<noteq> None \<longrightarrow>
            (\<exists>c. db s = Some (Db c) \<and> client s = Some c \<and>
                 s' = s\<lparr>live := live s - {c}, client := None, db := None\<rparr> \<and> c \<notin> live s')) \<and>
         client s' = None \<and> db s' = None \<and> getDatabase s' = Inl NotConnected \<and>
         closeDatabase s' = s' \<and>
         (client (close_resume s0) = None \<and> db (close_resume s0) = None \<and>
          closeDatabase (close_resume s0) = close_resume s0) \<and>
         (net uri = Accepted \<longrightarrow>
            fst (connectToDatabase net uri s') = Inr (Db (allocated s)) \<and>
            connected (snd (connectToDatabase net uri s')) \<and>
            allocated (snd (connectToDatabase net uri s')) = Suc (allocated s) \<and>
            allocated s \<notin> live s \<and> client s \<noteq> Some (allocated s))"
proof -
  have inv: "proc_inv (exec evs start)"
    by (rule proc_inv_reachable)
  have 1: "client s = None \<longrightarrow> s' = s"
    using assms(2) by (simp add: close_fields)
  have 2: "\<exists>c. db s = Some (Db c) \<and> client s = Some c \<and>
              s' = s\<lparr>live := live s - {c}, client := None, db := None\<rparr> \<and> c \<notin> live s'"
    if "db s \<noteq> None"
  proof -
    from that obtain h where "db s = Some h" by blast
    with proc_inv_handle [OF inv] assms(1) obtain c where "db s = Some (Db c)" "client s = Some c"
      by blast
    with assms(2) show ?thesis by (simp add: close_fields)
  qed
  have 3: "db s \<noteq> None \<longrightarrow> client s \<noteq> None"
    using 2 by auto
  have 4: "client s' = None"
    using assms(2) by (cases "client s") (simp_all add: close_fields)
  have 5: "db s' = None"
    using assms(2) 3 by (cases "client s") (simp_all add: close_fields)
  have 6: "getDatabase s' = Inl NotConnected"
    using 5 by (simp add: getDatabase_def)
  have 7: "closeDatabase s' = s'"
    using 4 by (simp add: close_fields)
  have 8: "allocated s' = allocated s"
    using assms(2) by (cases "client s") (simp_all add: close_fields)
  have 9: "allocated s \<notin> live s \<and> client s \<noteq> Some (allocated s)"
    using proc_inv_fresh [OF inv] assms(1) by simp
  have 10: "fst (connectToDatabase net uri s') = Inr (Db (allocated s)) \<and>
            connected (snd (connectToDatabase net uri s')) \<and>
            allocated (snd (connectToDatabase net uri s')) = Suc (allocated s)" if "net uri = Accepted"
    using that 5 8 by (simp add: connect_fresh connected_def)
  have 11: "client (close_resume s0) = None \<and> db (close_resume s0) = None \<and>
          closeDatabase (close_resume s0) = close_resume s0"
    by (simp add: close_resume_def closeDatabase_def)
  from 1 2 4 5 6 7 9 10 11 show ?thesis by blast
qed

text \<open>C3 amended, at the state after the first accepted connect.\<close>

theorem close_clears_state_witness:
  "after_connect = mem (exec [ConnectCall Accepted ''mongodb://localhost:27017/demo'', Resume 0] start) \<and>
   db after_connect = Some (Db 0) \<and> client after_connect = Some 0 \<and>
   closeDatabase after_connect =
      \<lparr>client = None, db = None, allocated = 1, live = {}, items = [], oplog = []\<rparr> \<and>
   closeDatabase (closeDatabase after_connect) = closeDatabase after_connect \<and>
   fst (connectToDatabase (\<lambda>u. Accepted) ''mongodb://localhost:27017/demo'' (closeDatabase after_connect))
     = Inr (Db 1)"
proof -
  have r: "after_connect = mem (exec [ConnectCall Accepted ''mongodb://localhost:27017/demo'', Resume 0] start)"
    by (rule after_connect_exec [symmetric])
  have c: "db after_connect = Some (Db 0) \<and> client after_connect = Some 0"
    by (simp add: after_connect_eq)
  have cl: "closeDatabase after_connect =
      \<lparr>client = None, db = None, allocated = 1, live = {}, items = [], oplog = []\<rparr>"
    by (simp add: after_connect_eq closeDatabase_def)
  have al: "allocated after_connect = 1"
    by (simp add: after_connect_eq)
  note t = close_clears_state [OF r refl, where net = "\<lambda>u. Accepted"
               and uri = "''mongodb://localhost:27017/demo''"]
  from t have i: "closeDatabase (closeDatabase after_connect) = closeDatabase after_connect"
    by blast
  from t al have f: "fst (connectToDatabase (\<lambda>u. Accepted) ''mongodb://localhost:27017/demo''
                        (closeDatabase after_connect)) = Inr (Db 1)"
    by simp
  from r c cl i f show ?thesis by blast
qed

text \<open>
  C10 as stated fails when two connect calls overlap. \<^verbatim>\<open>connectToDatabase\<close> assigns the
  module variable \<open>client\<close>, awaits the connection, and then reads the variable again for
  \<^verbatim>\<open>db = client.db()\<close>. If a second call begins during the first call's \<^verbatim>\<open>await\<close> (\<open>db\<close> is
  still null, so it constructs its own client), the first call, once accepted, stores the
  handle of the second call's client. The second call is then refused, and \<^verbatim>\<open>getDatabase\<close>
  returns the handle of a client whose connection was never established.
\<close>

theorem overlapping_connects_counterexample:
  "mem after_overlap =
     \<lparr>client = Some 1, db = Some (Db 1), allocated = 2, live = {0}, items = [], oplog = []\<rparr> \<and>
   pending after_overlap = [] \<and>
   getDatabase (mem after_overlap) = Inr (Db 1) \<and>
   1 \<notin> live (mem after_overlap) \<and>
   \<not> connected (mem after_overlap)"
  by (simp add: after_overlap_eq getDatabase_def connected_def)

text \<open>
  C10, amended. In every execution, calls that overlap included: the handle becomes
  non-null only in the continuation of a connect call whose connection was established;
  the beginning of a connect never assigns it and a refused connect throws and changes
  nothing, so as long as no connect is accepted \<^verbatim>\<open>getDatabase\<close> keeps throwing the
  not-connected error; and a stored handle is the handle of the stored client. For calls
  that do not overlap: a connect that fails throws and leaves \<open>db\<close> null, so \<^verbatim>\<open>getDatabase\<close>
  keeps throwing; an accepted one stores the handle that \<^verbatim>\<open>getDatabase\<close> then returns; and
  in every state of a run without overlap the connection of a stored handle's client is
  established. \<^verbatim>\<open>getDatabase\<close> throws exactly when \<open>db\<close> is null.
\<close>

theorem failed_connect_keeps_handle_null:
  "(db (mem p) = None \<and> db (mem (fire ev p)) \<noteq> None \<longrightarrow>
      (\<exists>i c. ev = Resume i \<and> i < length (pending p) \<and> pending p ! i = ConnectWait c True)) \<and>
   db (snd (connect_begin net uri s)) = db s \<and>
   connect_resume c False s = (Inl ConnectionError, s) \<and>
   (db (mem q) = None \<and> none_resolving (pending q) \<and> none_accepted evs \<longrightarrow>
      getDatabase (mem (exec evs q)) = Inl NotConnected) \<and>
   (db s = None \<and> net uri \<noteq> Accepted \<longrightarrow>
      (\<exists>err. fst (connectToDatabase net uri s) = Inl err) \<and>
      db (snd (connectToDatabase net uri s)) = None \<and>
      getDatabase (snd (connectToDatabase net uri s)) = Inl NotConnected) \<and>
   (db s = None \<and> net uri = Accepted \<longrightarrow>
      fst (connectToDatabase net uri s) = Inr (Db (allocated s)) \<and>
      getDatabase (snd (connectToDatabase net uri s)) = Inr (Db (allocated s)) \<and>
      connected (snd (connectToDatabase net uri s))) \<and>
   (getDatabase s = Inl NotConnected \<longleftrightarrow> db s = None) \<and>
   (db (mem (exec evs' start)) = Some h \<longrightarrow>
      (\<exists>c'. h = Db c' \<and> client (mem (exec evs' start)) = Some c')) \<and>
   (db (run_sequential acts initial) \<noteq> None \<longrightarrow> connected (run_sequential acts initial))"
proof -
  have 1: "getDatabase s = Inl NotConnected \<longleftrightarrow> db s = None"
    by (simp add: getDatabase_def split: option.splits)
  have 2: "db (run_sequential acts initial) \<noteq> None \<longrightarrow> connected (run_sequential acts initial)"
    using conn_inv_connected [OF conn_inv_reachable] by blast
  have 3: "(\<exists>err. fst (connectToDatabase net uri s) = Inl err) \<and>
           db (snd (connectToDatabase net uri s)) = None \<and>
           getDatabase (snd (connectToDatabase net uri s)) = Inl NotConnected"
    if "db s = None" "net uri \<noteq> Accepted"
    using that
    by (cases "net uri") (simp_all add: connect_refused connect_malformed getDatabase_def)
  have 4: "fst (connectToDatabase net uri s) = Inr (Db (allocated s)) \<and>
           getDatabase (snd (connectToDatabase net uri s)) = Inr (Db (allocated s)) \<and>
           connected (snd (connectToDatabase net uri s))"
    if "db s = None" "net uri = Accepted"
    using that by (simp add: connect_fresh getDatabase_def connected_def)
  have 5: "\<exists>i c. ev = Resume i \<and> i < length (pending p) \<and> pending p ! i = ConnectWait c True"
    if "db (mem p) = None" "db (mem (fire ev p)) \<noteq> None"
    using that by (rule handle_set_by_resume)
  have 6: "getDatabase (mem (exec evs q)) = Inl NotConnected"
    if "db (mem q) = None" "none_resolving (pending q)" "none_accepted evs"
    using handle_stays_null_exec [OF that] by (simp add: getDatabase_def)
  have 7: "\<exists>c'. h = Db c' \<and> client (mem (exec evs' start)) = Some c'"
    if "db (mem (exec evs' start)) = Some h"
    using proc_inv_handle [OF proc_inv_reachable that] .
  from 1 2 3 4 5 6 7 connect_begin_db [of net uri s] connect_resume_rejected [of c s]
  show ?thesis by blast
qed

text \<open>
  C10 amended: a process in which every connect is refused or malformed, with a close in
  between; and a process whose first connect is refused and whose second is accepted.
\<close>

theorem failed_connect_keeps_handle_null_witness:
  "db initial = None \<and>
   fst (connectToDatabase (\<lambda>u. Refused) ''mongodb://localhost:27017/demo'' initial) = Inl ConnectionError \<and>
   connectToDatabase (\<lambda>u. Malformed) ''localhost'' initial = (Inl ParseError, initial) \<and>
   db after_failed_connect = None \<and>
   getDatabase after_failed_connect = Inl NotConnected \<and>
   none_resolving (pending start) \<and>
   none_accepted [ConnectCall Refused ''mongodb://localhost:27017/demo'', ConnectCall Malformed ''localhost'',
                  CloseCall, Resume 1, ConnectCall Refused ''mongodb://localhost:27017/demo'', Resume 0] \<and>
   getDatabase (mem (exec [ConnectCall Refused ''mongodb://localhost:27017/demo'', ConnectCall Malformed ''localhost'',
                  CloseCall, Resume 1, ConnectCall Refused ''mongodb://localhost:27017/demo'', Resume 0] start))
     = Inl NotConnected \<and>
   fst (connectToDatabase (\<lambda>u. Accepted) ''mongodb://localhost:27017/demo'' after_failed_connect) = Inr (Db 1) \<and>
   connected (run_sequential [Connect Refused ''mongodb://localhost:27017/demo'',
                   Connect Accepted ''mongodb://localhost:27017/demo''] initial)"
proof -
  have a: "db initial = None"
    by (simp add: initial_def)
  have c: "db (run_sequential [Connect Refused ''mongodb://localhost:27017/demo'',
                   Connect Accepted ''mongodb://localhost:27017/demo''] initial) \<noteq> None"
    by (simp add: run_sequential_def connectToDatabase_def initial_def)
  have n: "db (mem start) = None" "none_resolving (pending start)"
    by (simp_all add: start_def initial_def none_resolving_def)
  have na: "none_accepted [ConnectCall Refused ''mongodb://localhost:27017/demo'', ConnectCall Malformed ''localhost'',
                  CloseCall, Resume 1, ConnectCall Refused ''mongodb://localhost:27017/demo'', Resume 0]"
    by (simp add: none_accepted_def)
  from failed_connect_keeps_handle_null
         [where net = "\<lambda>u. Refused" and uri = "''mongodb://localhost:27017/demo''"
            and s = initial and q = start
            and evs = "[ConnectCall Refused ''mongodb://localhost:27017/demo'', ConnectCall Malformed ''localhost'',
                  CloseCall, Resume 1, ConnectCall Refused ''mongodb://localhost:27017/demo'', Resume 0]"
            and acts = "[Connect Refused ''mongodb://localhost:27017/demo'',
               Connect Accepted ''mongodb://localhost:27017/demo'']"] a c n na
  have d: "db after_failed_connect = None \<and>
           getDatabase after_failed_connect = Inl NotConnected \<and>
           getDatabase (mem (exec [ConnectCall Refused ''mongodb://localhost:27017/demo'', ConnectCall Malformed ''localhost'',
                  CloseCall, Resume 1, ConnectCall Refused ''mongodb://localhost:27017/demo'', Resume 0] start))
             = Inl NotConnected \<and>
           connected (run_sequential [Connect Refused ''mongodb://localhost:27017/demo'',
                   Connect Accepted ''mongodb://localhost:27017/demo''] initial)"
    by (simp add: after_failed_connect_def)
  have r: "fst (connectToDatabase (\<lambda>u. Refused) ''mongodb://localhost:27017/demo'' initial) = Inl ConnectionError"
    by (simp add: connect_refused [OF a])
  have m: "connectToDatabase (\<lambda>u. Malformed) ''localhost'' initial = (Inl ParseError, initial)"
    by (simp add: connect_malformed [OF a])
  have e: "fst (connectToDatabase (\<lambda>u. Accepted) ''mongodb://localhost:27017/demo'' after_failed_connect) = Inr (Db 1)"
    by (simp add: after_failed_connect_eq connectToDatabase_def)
  from a d r m e n(2) na show ?thesis by simp
qed

section \<open>Identifiers and the collection: auxiliary facts\<close>

lemma hex_digits_round_trip: "list_all (\<lambda>d. hex_value (hex_char d) = Some d) [0..<16]"
  by code_simp

lemma hex_value_hex_char: "d < 16 \<Longrightarrow> hex_value (hex_char d) = Some d"
  using hex_digits_round_trip by (simp add: list_all_iff)

lemma parse_hex_toHexString:
  "list_all (\<lambda>d. d < 16) oid \<Longrightarrow> parse_hex (map hex_char oid) = Some oid"
  by (induction oid) (simp_all add: hex_value_hex_char)

lemma ObjectId_new_toHexString: "wf_objectid oid \<Longrightarrow> ObjectId_new (toHexString oid) = Inr oid"
  by (simp add: wf_objectid_def ObjectId_new_def toHexString_def parse_hex_toHexString)

lemma ObjectId_isValid_new: "ObjectId_isValid i \<Longrightarrow> \<exists>oid. ObjectId_new i = Inr oid"
  by (auto simp: ObjectId_isValid_def split: sum.splits)

lemma ObjectId_new_isValid: "ObjectId_new i = Inr oid \<Longrightarrow> ObjectId_isValid i"
  by (simp add: ObjectId_isValid_def)

lemma hex_value_None_iff: "hex_value c = None \<longleftrightarrow> c \<notin> fst ` set hex_table"
  by (simp add: hex_value_def map_of_eq_None_iff)

lemma parse_hex_iff: "parse_hex cs \<noteq> None \<longleftrightarrow> (\<forall>c \<in> set cs. hex_value c \<noteq> None)"
  by (induction cs) (auto split: option.splits)

lemma hex_chars: "fst ` set hex_table = set ''0123456789abcdefABCDEF''"
  unfolding hex_table_def by (simp only: list.set image_insert image_empty fst_conv)

lemma ObjectId_isValid_iff:
  "ObjectId_isValid i \<longleftrightarrow> length i = 24 \<and> (\<forall>c \<in> set i. c \<in> set ''0123456789abcdefABCDEF'')"
proof -
  have "parse_hex i \<noteq> None \<longleftrightarrow> (\<forall>c \<in> set i. c \<in> set ''0123456789abcdefABCDEF'')"
    unfolding parse_hex_iff hex_value_None_iff hex_chars by blast
  then show ?thesis
    by (cases "parse_hex i") (simp_all add: ObjectId_isValid_def ObjectId_new_def)
qed

lemma find_None_list_ex: "find P xs = None \<longleftrightarrow> \<not> list_ex P xs"
  by (induction xs) simp_all

lemma update_first_none: "\<not> list_ex P xs \<Longrightarrow> update_first P f xs = (None, xs)"
  by (induction xs) simp_all

lemma delete_first_none: "\<not> list_ex P xs \<Longrightarrow> delete_first P xs = (0, xs)"
  by (induction xs) simp_all

lemma find_split:
  "find P xs = Some d \<Longrightarrow> \<exists>pre post. xs = pre @ d # post \<and> \<not> list_ex P pre \<and> P d"
proof (induction xs)
  case Nil
  then show ?case by simp
next
  case (Cons x xs)
  show ?case
  proof (cases "P x")
    case True
    with Cons.prems have "x = d" by simp
    with True have "x # xs = [] @ d # xs \<and> \<not> list_ex P [] \<and> P d" by simp
    then show ?thesis by blast
  next
    case False
    with Cons obtain pre post where "xs = pre @ d # post" "\<not> list_ex P pre" "P d" by auto
    with False have "x # xs = (x # pre) @ d # post \<and> \<not> list_ex P (x # pre) \<and> P d" by simp
    then show ?thesis by blast
  qed
qed

lemma update_first_split:
  "\<not> list_ex P pre \<Longrightarrow> P d \<Longrightarrow> update_first P f (pre @ d # post) = (Some (f d), pre @ f d # post)"
  by (induction pre) simp_all

lemma delete_first_split:
  "\<not> list_ex P pre \<Longrightarrow> P d \<Longrightarrow> delete_first P (pre @ d # post) = (1, pre @ post)"
  by (induction pre) simp_all

lemma find_split_eq:
  "\<not> list_ex P pre \<Longrightarrow> P d \<Longrightarrow> find P (pre @ d # post) = Some d"
  by (induction pre) simp_all

lemma map_of_set_field: "map_of (set_field k v d) = (map_of d)(k \<mapsto> v)"
  by (induction d) (auto simp: fun_eq_iff)

lemma map_of_apply_set3:
  "map_of (apply_set [(k1, v1), (k2, v2), (k3, v3)] d) =
     (map_of d)(k1 \<mapsto> to_bson v1, k2 \<mapsto> to_bson v2, k3 \<mapsto> to_bson v3)"
  by (simp add: apply_set_def serialize_def map_of_set_field)

lemma to_bson_truthy: "truthy v \<Longrightarrow> to_bson v = v"
  by (cases v) simp_all

lemma truthy_to_bson: "truthy (to_bson v) = truthy v"
  by (cases v) simp_all

lemma to_bson_js_or: "to_bson (js_or v (Str s)) = js_or v (Str s)"
  by (cases v) (simp_all add: js_or_def)

lemma matches_id_apply_set3:
  "k1 \<noteq> ''_id'' \<Longrightarrow> k2 \<noteq> ''_id'' \<Longrightarrow> k3 \<noteq> ''_id'' \<Longrightarrow>
   matches_id oid (apply_set [(k1, v1), (k2, v2), (k3, v3)] d) = matches_id oid d"
  by (simp add: matches_id_def map_of_apply_set3)

section \<open>Handlers: auxiliary facts\<close>

lemma getDatabase_connected:
  "connected s \<Longrightarrow> \<exists>c. getDatabase s = Inr (Db c) \<and> c \<in> live s"
  by (auto simp: connected_def getDatabase_def split: option.splits db_handle.splits)

lemma round_trip_ok_live:
  "c \<in> live s \<Longrightarrow> round_trip_ok e k (Db c) s = (\<not> fault e k)"
  by (simp add: round_trip_ok_def)

lemma findOne_ok:
  "c \<in> live s \<Longrightarrow> \<not> fault e OpFindOne \<Longrightarrow>
   findOne e (Db c) oid s = (Inr (find (matches_id oid) (items s)), logged (FindOne oid) s)"
  by (simp add: findOne_def round_trip_ok_live)

lemma insertOne_ok:
  "c \<in> live s \<Longrightarrow> \<not> fault e OpInsertOne \<Longrightarrow> \<not> list_ex (matches_id (new_id e)) (items s) \<Longrightarrow>
   insertOne e (Db c) doc s =
     (Inr (new_id e),
      (logged (InsertOne doc) s)\<lparr>items := items s @ [(''_id'', ObjId (new_id e)) # serialize doc]\<rparr>)"
  by (simp add: insertOne_def round_trip_ok_live)

lemma findOneAndUpdate_ok:
  "c \<in> live s \<Longrightarrow> \<not> fault e OpFindOneAndUpdate \<Longrightarrow>
   update_first (matches_id oid) (apply_set upd) (items s) = (r, ys) \<Longrightarrow>
   findOneAndUpdate e (Db c) oid upd s = (Inr r, (logged (FindOneAndUpdate oid upd) s)\<lparr>items := ys\<rparr>)"
  by (simp add: findOneAndUpdate_def round_trip_ok_live)

lemma deleteOne_ok:
  "c \<in> live s \<Longrightarrow> \<not> fault e OpDeleteOne \<Longrightarrow>
   delete_first (matches_id oid) (items s) = (n, ys) \<Longrightarrow>
   deleteOne e (Db c) oid s = (Inr n, (logged (DeleteOne oid) s)\<lparr>items := ys\<rparr>)"
  by (simp add: deleteOne_def round_trip_ok_live)

lemma update_item_existing:
  assumes "connected s" and "\<forall>k. \<not> fault e k"
    and "ObjectId_new ident = Inr oid" and "find (matches_id oid) (items s) = Some d"
    and "upd = [(''name'', field req_body ''name''),
                (''description'', field req_body ''description''),
                (''updatedAt'', Date (now e))]"
  shows "\<exists>pre post. items s = pre @ d # post \<and> \<not> list_ex (matches_id oid) pre \<and> matches_id oid d \<and>
           update_item e ident req_body s =
             ((200, DocBody (Some (apply_set upd d))),
              (logged (FindOneAndUpdate oid upd) s)\<lparr>items := pre @ apply_set upd d # post\<rparr>)"
proof -
  from assms(1) obtain c where db: "getDatabase s = Inr (Db c)" and c: "c \<in> live s"
    using getDatabase_connected by blast
  have v: "ObjectId_isValid ident"
    using assms(3) by (rule ObjectId_new_isValid)
  from find_split [OF assms(4)] obtain pre post
    where sp: "items s = pre @ d # post" and pre: "\<not> list_ex (matches_id oid) pre"
      and md: "matches_id oid d"
    by blast
  have uf: "update_first (matches_id oid) (apply_set upd) (items s) =
              (Some (apply_set upd d), pre @ apply_set upd d # post)"
    unfolding sp by (rule update_first_split [OF pre md])
  have "update_item e ident req_body s =
             ((200, DocBody (Some (apply_set upd d))),
              (logged (FindOneAndUpdate oid upd) s)\<lparr>items := pre @ apply_set upd d # post\<rparr>)"
    using assms(2)
    by (simp add: update_item_def v db assms(3) assms(5) [symmetric]
          findOneAndUpdate_ok [OF c _ uf])
  with sp pre md show ?thesis by blast
qed

subsection \<open>The sample inputs, evaluated\<close>

lemma invalid_id_example: "\<not> ObjectId_isValid ''invalid-id''"
  by (simp add: ObjectId_isValid_iff)

lemma fake_id_new:
  "ObjectId_new ''507f1f77bcf86cd799439011'' =
     Inr [5, 0, 7, 15, 1, 15, 7, 7, 11, 12, 15, 8, 6, 12, 13, 7, 9, 9, 4, 3, 9, 0, 1, 1]"
  by (simp add: ObjectId_new_def hex_value_def hex_table_def)

lemma sample_id_new: "ObjectId_new ''6584a1b2c3d4e5f6a7b8c9d0'' = Inr sample_id"
  by (simp add: ObjectId_new_def hex_value_def hex_table_def sample_id_def)

lemma sample_id_hex: "toHexString sample_id = ''6584a1b2c3d4e5f6a7b8c9d0''"
  by (simp add: toHexString_def sample_id_def hex_char_def)

lemma wf_sample_id: "wf_objectid sample_id"
  by (simp add: wf_objectid_def sample_id_def)

lemma env_no_fault: "\<forall>k. \<not> fault env1 k" "\<forall>k. \<not> fault env2 k"
  by (simp_all add: env1_def env2_def)

lemma connected_after_connect: "connected after_connect"
  by (simp add: after_connect_eq connected_def)

lemma with_item_eq:
  "with_item = \<lparr>client = Some 0, db = Some (Db 0), allocated = 1, live = {0},
      items = [sample_doc],
      oplog = [InsertOne [(''name'', Str ''X''), (''description'', Str ''Y''), (''createdAt'', Date 1000)],
               FindOne sample_id]\<rparr>"
  by (simp add: with_item_def after_connect_def connectToDatabase_def initial_def create_item_def
        field_def getDatabase_def insertOne_def findOne_def round_trip_ok_def logged_def
        env1_def js_or_def serialize_def matches_id_def sample_doc_def Let_def)

lemma connected_with_item: "connected with_item"
  by (simp add: with_item_eq connected_def)

lemma find_sample_doc: "find (matches_id sample_id) (items with_item) = Some sample_doc"
  by (simp add: with_item_eq matches_id_def sample_doc_def)

section \<open>Claims about the item handlers\<close>

text \<open>
  C1 as stated fails: only the list handler calls \<^verbatim>\<open>getDatabase\<close> first. The other four
  validate first and return 400 before \<^verbatim>\<open>getDatabase\<close> is reached, so with no connection
  established a create without a name and a get, update or delete with a malformed id are
  answered with a client error.
\<close>

theorem validation_before_connection_counterexample:
  "getDatabase initial = Inl NotConnected \<and>
   fst (create_item env1 [(''description'', Str ''No name provided'')] initial) =
     (400, ErrorBody ''Name is required'') \<and>
   fst (get_item env1 ''invalid-id'' initial) = (400, ErrorBody ''Invalid ID format'') \<and>
   fst (update_item env1 ''invalid-id'' [(''name'', Str ''Updated'')] initial) =
     (400, ErrorBody ''Invalid ID format'') \<and>
   fst (delete_item env1 ''invalid-id'' initial) = (400, ErrorBody ''Invalid ID format'')"
  by (simp add: getDatabase_def initial_def create_item_def field_def get_item_def update_item_def
        delete_item_def invalid_id_example)

text \<open>
  C1, amended. When \<^verbatim>\<open>getDatabase\<close> fails: the list handler answers 500; create answers
  400 "Name is required" when the name is falsy and 500 otherwise; get, update and delete
  answer 400 "Invalid ID format" when the id is malformed and 500 otherwise. In every case
  the state is what it was: no call on the collection is issued and no connection is
  attempted.
\<close>

theorem handlers_without_connection:
  assumes "getDatabase s = Inl err"
  shows "list_items e s = ((500, ErrorBody ''Failed to fetch items''), s) \<and>
         create_item e req_body s =
           (if truthy (field req_body ''name'') then (500, ErrorBody ''Failed to create item'')
            else (400, ErrorBody ''Name is required''), s) \<and>
         get_item e ident s =
           (if ObjectId_isValid ident then (500, ErrorBody ''Failed to fetch item'')
            else (400, ErrorBody ''Invalid ID format''), s) \<and>
         update_item e ident req_body s =
           (if ObjectId_isValid ident then (500, ErrorBody ''Failed to update item'')
            else (400, ErrorBody ''Invalid ID format''), s) \<and>
         delete_item e ident s =
           (if ObjectId_isValid ident then (500, ErrorBody ''Failed to delete item'')
            else (400, ErrorBody ''Invalid ID format''), s)"
  using assms
  by (simp add: list_items_def create_item_def get_item_def update_item_def delete_item_def)

text \<open>C1 amended, at the state a rejected connect leaves.\<close>

theorem handlers_without_connection_witness:
  "getDatabase after_failed_connect = Inl NotConnected \<and>
   list_items env1 after_failed_connect = ((500, ErrorBody ''Failed to fetch items''), after_failed_connect) \<and>
   create_item env1 [(''name'', Str ''X'')] after_failed_connect =
     ((500, ErrorBody ''Failed to create item''), after_failed_connect) \<and>
   get_item env1 ''6584a1b2c3d4e5f6a7b8c9d0'' after_failed_connect =
     ((500, ErrorBody ''Failed to fetch item''), after_failed_connect) \<and>
   update_item env1 ''6584a1b2c3d4e5f6a7b8c9d0'' [(''name'', Str ''X'')] after_failed_connect =
     ((500, ErrorBody ''Failed to update item''), after_failed_connect) \<and>
   delete_item env1 ''invalid-id'' after_failed_connect =
     ((400, ErrorBody ''Invalid ID format''), after_failed_connect)"
proof -
  have g: "getDatabase after_failed_connect = Inl NotConnected"
    by (simp add: after_failed_connect_eq getDatabase_def)
  have t: "truthy (field [(''name'', Str ''X'')] ''name'')"
    by (simp add: field_def)
  have v: "ObjectId_isValid ''6584a1b2c3d4e5f6a7b8c9d0''"
    by (rule ObjectId_new_isValid [OF sample_id_new])
  from handlers_without_connection [OF g, of env1 "[(''name'', Str ''X'')]" "''6584a1b2c3d4e5f6a7b8c9d0''"]
       handlers_without_connection [OF g, of env1 "[(''name'', Str ''X'')]" "''invalid-id''"]
       g t v invalid_id_example
  show ?thesis by simp
qed

text \<open>
  C4. A create request whose \<open>name\<close> is absent or falsy (the empty string included) is
  answered 400 with the message "Name is required", and the state is what it was: no call
  on the collection is issued and the collection is unchanged.
\<close>

theorem create_requires_name:
  assumes "map_of req_body ''name'' = None \<or> \<not> truthy (field req_body ''name'')"
  shows "create_item e req_body s = ((400, ErrorBody ''Name is required''), s)"
proof -
  from assms have "\<not> truthy (field req_body ''name'')"
    by (auto simp: field_def)
  then show ?thesis
    by (simp add: create_item_def)
qed

text \<open>C4 for a body without \<open>name\<close> and for a body whose \<open>name\<close> is the empty string.\<close>

theorem create_requires_name_witness:
  "map_of [(''description'', Str ''No name provided'')] ''name'' = None \<and>
   create_item env1 [(''description'', Str ''No name provided'')] after_connect =
     ((400, ErrorBody ''Name is required''), after_connect) \<and>
   \<not> truthy (field [(''name'', Str '''')] ''name'') \<and>
   create_item env1 [(''name'', Str '''')] after_connect =
     ((400, ErrorBody ''Name is required''), after_connect)"
proof -
  have a: "map_of [(''description'', Str ''No name provided'')] ''name'' = None"
    by simp
  have b: "\<not> truthy (field [(''name'', Str '''')] ''name'')"
    by (simp add: field_def)
  from create_requires_name [of "[(''description'', Str ''No name provided'')]" env1 after_connect]
       create_requires_name [of "[(''name'', Str '''')]" env1 after_connect] a b
  show ?thesis by blast
qed

text \<open>
  C5. With a usable connection, no failing round trip and a generated id that is new to the
  collection, a create request with a truthy (so non-empty) \<open>name\<close> appends the document
  holding the new id, that name, the description (the empty string when the field is
  absent, the given string when it is a string) and \<open>createdAt\<close> = now; it issues the
  insert and then the read-back by the inserted id, and answers 201 with that document. A
  later get by the id's hexadecimal form answers 200 with the same document.
\<close>

theorem create_round_trip:
  assumes "connected s" and "\<forall>k. \<not> fault e k" and "\<forall>k. \<not> fault e' k"
    and "truthy (field req_body ''name'')"
    and "wf_objectid (new_id e)" and "\<not> list_ex (matches_id (new_id e)) (items s)"
  shows "let doc = [(''_id'', ObjId (new_id e)),
                    (''name'', field req_body ''name''),
                    (''description'', js_or (field req_body ''description'') (Str [])),
                    (''createdAt'', Date (now e))];
             r = create_item e req_body s
         in fst r = (201, DocBody (Some doc)) \<and>
            items (snd r) = items s @ [doc] \<and>
            oplog (snd r) = oplog s @ [InsertOne (tl doc), FindOne (new_id e)] \<and>
            (map_of req_body ''description'' = None \<longrightarrow> field doc ''description'' = Str []) \<and>
            (\<forall>str. field req_body ''description'' = Str str \<longrightarrow> field doc ''description'' = Str str) \<and>
            fst (get_item e' (toHexString (new_id e)) (snd r)) = (200, DocBody (Some doc))"
proof -
  define doc0 where "doc0 = [(''name'', field req_body ''name''),
                    (''description'', js_or (field req_body ''description'') (Str [])),
                    (''createdAt'', Date (now e))]"
  define doc where "doc = (''_id'', ObjId (new_id e)) # doc0"
  define s1 where "s1 = (logged (InsertOne doc0) s)\<lparr>items := items s @ [doc]\<rparr>"
  define s2 where "s2 = logged (FindOne (new_id e)) s1"
  from assms(1) obtain c where db: "getDatabase s = Inr (Db c)" and c: "c \<in> live s"
    using getDatabase_connected by blast
  have ser: "serialize doc0 = doc0"
    by (simp add: serialize_def doc0_def to_bson_truthy [OF assms(4)] to_bson_js_or)
  have ins: "insertOne e (Db c) doc0 s = (Inr (new_id e), s1)"
    using assms(2) by (simp add: insertOne_ok [OF c _ assms(6)] ser s1_def doc_def)
  have c1: "c \<in> live s1"
    using c by (simp add: s1_def)
  have md: "matches_id (new_id e) doc"
    by (simp add: matches_id_def doc_def)
  have fnd: "find (matches_id (new_id e)) (items s1) = Some doc"
    using find_split_eq [OF assms(6) md, of "[]"] by (simp add: s1_def)
  have fo: "findOne e (Db c) (new_id e) s1 = (Inr (Some doc), s2)"
    using assms(2) by (simp add: findOne_ok [OF c1] fnd s2_def)
  have cr: "create_item e req_body s = ((201, DocBody (Some doc)), s2)"
    using assms(4) by (simp add: create_item_def db doc0_def [symmetric] ins fo)
  have db2: "getDatabase s2 = Inr (Db c)"
    using db by (simp add: getDatabase_def s2_def s1_def)
  have c2: "c \<in> live s2"
    using c by (simp add: s2_def s1_def)
  have fnd2: "find (matches_id (new_id e)) (items s2) = Some doc"
    using fnd by (simp add: s2_def)
  have idn: "ObjectId_new (toHexString (new_id e)) = Inr (new_id e)"
    using assms(5) by (rule ObjectId_new_toHexString)
  have g: "fst (get_item e' (toHexString (new_id e)) s2) = (200, DocBody (Some doc))"
    using assms(3)
    by (simp add: get_item_def ObjectId_new_isValid [OF idn] db2 idn findOne_ok [OF c2] fnd2)
  have f1: "fst (create_item e req_body s) = (201, DocBody (Some doc))"
    by (simp add: cr)
  have f2: "items (snd (create_item e req_body s)) = items s @ [doc]"
    by (simp add: cr s2_def s1_def)
  have f3: "oplog (snd (create_item e req_body s)) = oplog s @ [InsertOne (tl doc), FindOne (new_id e)]"
    by (simp add: cr s2_def s1_def doc_def)
  have f4: "map_of req_body ''description'' = None \<longrightarrow> field doc ''description'' = Str []"
    by (simp add: field_def doc_def doc0_def js_or_def)
  have f5: "\<forall>str. field req_body ''description'' = Str str \<longrightarrow> field doc ''description'' = Str str"
    by (simp add: field_def doc_def doc0_def js_or_def)
  have f6: "fst (get_item e' (toHexString (new_id e)) (snd (create_item e req_body s))) =
              (200, DocBody (Some doc))"
    using g by (simp add: cr)
  from f1 f2 f3 f4 f5 f6 show ?thesis
    unfolding Let_def doc_def doc0_def by blast
qed

text \<open>C5 for \<open>{name: "X", description: "Y"}\<close> on the empty collection.\<close>

theorem create_round_trip_witness:
  "connected after_connect \<and> (\<forall>k. \<not> fault env1 k) \<and> (\<forall>k. \<not> fault env2 k) \<and>
   truthy (field [(''name'', Str ''X''), (''description'', Str ''Y'')] ''name'') \<and>
   wf_objectid (new_id env1) \<and> \<not> list_ex (matches_id (new_id env1)) (items after_connect) \<and>
   fst (create_item env1 [(''name'', Str ''X''), (''description'', Str ''Y'')] after_connect) =
     (201, DocBody (Some sample_doc)) \<and>
   fst (get_item env2 ''6584a1b2c3d4e5f6a7b8c9d0''
          (snd (create_item env1 [(''name'', Str ''X''), (''description'', Str ''Y'')] after_connect))) =
     (200, DocBody (Some sample_doc))"
proof -
  have t: "truthy (field [(''name'', Str ''X''), (''description'', Str ''Y'')] ''name'')"
    by (simp add: field_def)
  have w: "wf_objectid (new_id env1)"
    by (simp add: env1_def wf_sample_id)
  have n: "\<not> list_ex (matches_id (new_id env1)) (items after_connect)"
    by (simp add: after_connect_eq)
  have d: "[(''_id'', ObjId (new_id env1)),
            (''name'', field [(''name'', Str ''X''), (''description'', Str ''Y'')] ''name''),
            (''description'', js_or (field [(''name'', Str ''X''), (''description'', Str ''Y'')] ''description'') (Str [])),
            (''createdAt'', Date (now env1))] = sample_doc"
    by (simp add: sample_doc_def env1_def field_def js_or_def)
  have h: "toHexString (new_id env1) = ''6584a1b2c3d4e5f6a7b8c9d0''"
    by (simp add: env1_def sample_id_hex)
  from create_round_trip [OF connected_after_connect env_no_fault(1) env_no_fault(2) t w n]
  have "fst (create_item env1 [(''name'', Str ''X''), (''description'', Str ''Y'')] after_connect) =
          (201, DocBody (Some sample_doc)) \<and>
        fst (get_item env2 ''6584a1b2c3d4e5f6a7b8c9d0''
          (snd (create_item env1 [(''name'', Str ''X''), (''description'', Str ''Y'')] after_connect))) =
          (200, DocBody (Some sample_doc))"
    unfolding Let_def d h by blast
  with connected_after_connect env_no_fault t w n show ?thesis by blast
qed

text \<open>
  C6. For an id that \<^verbatim>\<open>ObjectId.isValid\<close> rejects, get, update and delete each answer 400
  with the message "Invalid ID format", and the state is what it was: no call on the
  collection is issued.
\<close>

theorem invalid_id_rejected:
  assumes "\<not> ObjectId_isValid ident"
  shows "get_item e ident s = ((400, ErrorBody ''Invalid ID format''), s) \<and>
         update_item e ident req_body s = ((400, ErrorBody ''Invalid ID format''), s) \<and>
         delete_item e ident s = ((400, ErrorBody ''Invalid ID format''), s)"
  using assms by (simp add: get_item_def update_item_def delete_item_def)

text \<open>C6 for the id \<^verbatim>\<open>invalid-id\<close>.\<close>

theorem invalid_id_rejected_witness:
  "\<not> ObjectId_isValid ''invalid-id'' \<and>
   get_item env1 ''invalid-id'' after_connect = ((400, ErrorBody ''Invalid ID format''), after_connect) \<and>
   update_item env1 ''invalid-id'' [(''name'', Str ''Updated'')] after_connect =
     ((400, ErrorBody ''Invalid ID format''), after_connect) \<and>
   delete_item env1 ''invalid-id'' after_connect = ((400, ErrorBody ''Invalid ID format''), after_connect)"
  using invalid_id_rejected [OF invalid_id_example, of env1 after_connect "[(''name'', Str ''Updated'')]"]
        invalid_id_example
  by blast

text \<open>
  C7. With a usable connection and no failing round trip, for a well-formed id that no
  document of the collection has, get, update and delete each answer 404 with the message
  "Item not found", and the collection is unchanged.
\<close>

theorem missing_item_not_found:
  assumes "connected s" and "\<forall>k. \<not> fault e k"
    and "ObjectId_new ident = Inr oid" and "\<not> list_ex (matches_id oid) (items s)"
  shows "fst (get_item e ident s) = (404, ErrorBody ''Item not found'') \<and>
         fst (update_item e ident req_body s) = (404, ErrorBody ''Item not found'') \<and>
         fst (delete_item e ident s) = (404, ErrorBody ''Item not found'') \<and>
         items (snd (get_item e ident s)) = items s \<and>
         items (snd (update_item e ident req_body s)) = items s \<and>
         items (snd (delete_item e ident s)) = items s"
proof -
  from assms(1) obtain c where db: "getDatabase s = Inr (Db c)" and c: "c \<in> live s"
    using getDatabase_connected by blast
  have v: "ObjectId_isValid ident"
    using assms(3) by (rule ObjectId_new_isValid)
  have f: "find (matches_id oid) (items s) = None"
    using assms(4) by (simp add: find_None_list_ex)
  have g: "get_item e ident s = ((404, ErrorBody ''Item not found''), logged (FindOne oid) s)"
    using assms(2) by (simp add: get_item_def v db assms(3) findOne_ok [OF c] f)
  have u: "update_item e ident req_body s =
             ((404, ErrorBody ''Item not found''),
              (logged (FindOneAndUpdate oid
                 [(''name'', field req_body ''name''),
                  (''description'', field req_body ''description''),
                  (''updatedAt'', Date (now e))]) s)\<lparr>items := items s\<rparr>)"
    using assms(2)
    by (simp add: update_item_def v db assms(3)
          findOneAndUpdate_ok [OF c _ update_first_none [OF assms(4)]])
  have d: "delete_item e ident s =
             ((404, ErrorBody ''Item not found''), (logged (DeleteOne oid) s)\<lparr>items := items s\<rparr>)"
    using assms(2)
    by (simp add: delete_item_def v db assms(3)
          deleteOne_ok [OF c _ delete_first_none [OF assms(4)]])
  show ?thesis
    by (simp add: g u d)
qed

text \<open>C7 for the id \<^verbatim>\<open>507f1f77bcf86cd799439011\<close> on a collection that holds another item.\<close>

theorem missing_item_not_found_witness:
  "connected with_item \<and> (\<forall>k. \<not> fault env1 k) \<and>
   ObjectId_isValid ''507f1f77bcf86cd799439011'' \<and>
   fst (get_item env1 ''507f1f77bcf86cd799439011'' with_item) = (404, ErrorBody ''Item not found'') \<and>
   fst (update_item env1 ''507f1f77bcf86cd799439011'' [(''name'', Str ''Updated'')] with_item)
     = (404, ErrorBody ''Item not found'') \<and>
   fst (delete_item env1 ''507f1f77bcf86cd799439011'' with_item) = (404, ErrorBody ''Item not found'')"
proof -
  have n: "\<not> list_ex (matches_id [5, 0, 7, 15, 1, 15, 7, 7, 11, 12, 15, 8, 6, 12, 13, 7, 9, 9, 4, 3, 9, 0, 1, 1])
             (items with_item)"
    by (simp add: with_item_eq matches_id_def sample_doc_def sample_id_def)
  from missing_item_not_found [OF connected_with_item env_no_fault(1) fake_id_new n,
         of "[(''name'', Str ''Updated'')]"]
       connected_with_item env_no_fault(1) ObjectId_new_isValid [OF fake_id_new]
  show ?thesis by blast
qed

text \<open>
  C8. With a usable connection and no failing round trip, an update of an existing item
  is one find-and-update call that sets \<open>name\<close> and \<open>description\<close> to the values of the
  body (an absent one is written as null) and \<open>updatedAt\<close> to now, leaves \<open>_id\<close>,
  \<open>createdAt\<close> and every other field as they were, leaves every other document and the
  order of the collection as they were, and answers 200 with the document as it stands
  after the update.
\<close>

theorem update_sets_fields:
  assumes "connected s" and "\<forall>k. \<not> fault e k"
    and "ObjectId_new ident = Inr oid" and "find (matches_id oid) (items s) = Some d"
  shows "let upd = [(''name'', field req_body ''name''),
                    (''description'', field req_body ''description''),
                    (''updatedAt'', Date (now e))];
             d' = apply_set upd d;
             r = update_item e ident req_body s
         in fst r = (200, DocBody (Some d')) \<and>
            field d' ''name'' = to_bson (field req_body ''name'') \<and>
            field d' ''description'' = to_bson (field req_body ''description'') \<and>
            field d' ''updatedAt'' = Date (now e) \<and>
            field d' ''_id'' = ObjId oid \<and> field d ''_id'' = ObjId oid \<and>
            field d' ''createdAt'' = field d ''createdAt'' \<and>
            (\<forall>k. k \<notin> {''name'', ''description'', ''updatedAt''} \<longrightarrow> map_of d' k = map_of d k) \<and>
            find (matches_id oid) (items (snd r)) = Some d' \<and>
            (\<exists>pre post. items s = pre @ d # post \<and> items (snd r) = pre @ d' # post \<and>
                         \<not> list_ex (matches_id oid) pre) \<and>
            oplog (snd r) = oplog s @ [FindOneAndUpdate oid upd]"
proof -
  define upd where "upd = [(''name'', field req_body ''name''),
                    (''description'', field req_body ''description''),
                    (''updatedAt'', Date (now e))]"
  define d' where "d' = apply_set upd d"
  from update_item_existing [OF assms upd_def] obtain pre post
    where sp: "items s = pre @ d # post" and pre: "\<not> list_ex (matches_id oid) pre"
      and md: "matches_id oid d"
      and r: "update_item e ident req_body s =
             ((200, DocBody (Some d')), (logged (FindOneAndUpdate oid upd) s)\<lparr>items := pre @ d' # post\<rparr>)"
    unfolding d'_def by blast
  have m: "map_of d' = (map_of d)(''name'' \<mapsto> to_bson (field req_body ''name''),
              ''description'' \<mapsto> to_bson (field req_body ''description''),
              ''updatedAt'' \<mapsto> Date (now e))"
    unfolding d'_def upd_def by (simp add: map_of_apply_set3)
  have md': "matches_id oid d'"
    unfolding d'_def upd_def using md by (simp add: matches_id_apply_set3)
  have f1: "field d' ''name'' = to_bson (field req_body ''name'')"
    by (simp add: field_def m)
  have f2: "field d' ''description'' = to_bson (field req_body ''description'')"
    by (simp add: field_def m)
  have f3: "field d' ''updatedAt'' = Date (now e)"
    by (simp add: field_def m)
  have f4: "field d' ''_id'' = ObjId oid"
    using md' by (simp add: field_def matches_id_def)
  have f5: "field d ''_id'' = ObjId oid"
    using md by (simp add: field_def matches_id_def)
  have f6: "field d' ''createdAt'' = field d ''createdAt''"
    by (simp add: field_def m)
  have f7: "\<forall>k. k \<notin> {''name'', ''description'', ''updatedAt''} \<longrightarrow> map_of d' k = map_of d k"
    by (simp add: m)
  have f8: "find (matches_id oid) (items (snd (update_item e ident req_body s))) = Some d'"
    by (simp add: r find_split_eq [OF pre md'])
  have f9: "\<exists>pre post. items s = pre @ d # post \<and>
              items (snd (update_item e ident req_body s)) = pre @ d' # post \<and>
              \<not> list_ex (matches_id oid) pre"
    using sp pre by (auto simp: r)
  have f10: "oplog (snd (update_item e ident req_body s)) = oplog s @ [FindOneAndUpdate oid upd]"
    by (simp add: r)
  have f0: "fst (update_item e ident req_body s) = (200, DocBody (Some d'))"
    by (simp add: r)
  from f0 f1 f2 f3 f4 f5 f6 f7 f8 f9 f10 show ?thesis
    unfolding Let_def upd_def [symmetric] d'_def [symmetric] by blast
qed

text \<open>C8 for an update of the sample item at a later time.\<close>

theorem update_sets_fields_witness:
  "connected with_item \<and> (\<forall>k. \<not> fault env2 k) \<and>
   ObjectId_new ''6584a1b2c3d4e5f6a7b8c9d0'' = Inr sample_id \<and>
   find (matches_id sample_id) (items with_item) = Some sample_doc \<and>
   fst (update_item env2 ''6584a1b2c3d4e5f6a7b8c9d0''
          [(''name'', Str ''Updated Name''), (''description'', Str ''Updated description'')] with_item) =
     (200, DocBody (Some [(''_id'', ObjId sample_id), (''name'', Str ''Updated Name''),
                          (''description'', Str ''Updated description''),
                          (''createdAt'', Date 1000), (''updatedAt'', Date 2000)]))"
proof -
  have d: "apply_set [(''name'', Str ''Updated Name''), (''description'', Str ''Updated description''),
                      (''updatedAt'', Date 2000)] sample_doc =
           [(''_id'', ObjId sample_id), (''name'', Str ''Updated Name''),
            (''description'', Str ''Updated description''),
            (''createdAt'', Date 1000), (''updatedAt'', Date 2000)]"
    by (simp add: apply_set_def serialize_def sample_doc_def)
  from update_sets_fields [OF connected_with_item env_no_fault(2) sample_id_new find_sample_doc,
         of "[(''name'', Str ''Updated Name''), (''description'', Str ''Updated description'')]"]
  have "fst (update_item env2 ''6584a1b2c3d4e5f6a7b8c9d0''
          [(''name'', Str ''Updated Name''), (''description'', Str ''Updated description'')] with_item) =
     (200, DocBody (Some (apply_set [(''name'', Str ''Updated Name''), (''description'', Str ''Updated description''),
                      (''updatedAt'', Date 2000)] sample_doc)))"
    by (simp add: Let_def field_def env2_def)
  with d connected_with_item env_no_fault(2) sample_id_new find_sample_doc
  show ?thesis by simp
qed

text \<open>
  C9. Update does not validate \<open>name\<close>: for a well-formed id the answer is 200, 404 or
  500, never 400, whatever the body holds; and with a usable connection and no failing
  round trip, an update of an existing item whose body has a falsy \<open>name\<close> (absent, empty)
  answers 200 and stores that falsy name.
\<close>

theorem update_never_validates_name:
  "(ObjectId_isValid ident \<longrightarrow> fst (fst (update_item e ident req_body s)) \<in> {200, 404, 500}) \<and>
   (connected s \<and> (\<forall>k. \<not> fault e k) \<and> ObjectId_new ident = Inr oid \<and>
    find (matches_id oid) (items s) = Some d \<and> \<not> truthy (field req_body ''name'') \<longrightarrow>
      (\<exists>d'. fst (update_item e ident req_body s) = (200, DocBody (Some d')) \<and>
            find (matches_id oid) (items (snd (update_item e ident req_body s))) = Some d' \<and>
            field d' ''name'' = to_bson (field req_body ''name'') \<and>
            \<not> truthy (field d' ''name'')))"
proof -
  have a: "fst (fst (update_item e ident req_body s)) \<in> {200, 404, 500}" if "ObjectId_isValid ident"
    using that
    by (simp add: update_item_def Let_def split: sum.splits prod.splits option.splits)
  have b: "\<exists>d'. fst (update_item e ident req_body s) = (200, DocBody (Some d')) \<and>
            find (matches_id oid) (items (snd (update_item e ident req_body s))) = Some d' \<and>
            field d' ''name'' = to_bson (field req_body ''name'') \<and>
            \<not> truthy (field d' ''name'')"
    if h: "connected s" "\<forall>k. \<not> fault e k" "ObjectId_new ident = Inr oid"
          "find (matches_id oid) (items s) = Some d" "\<not> truthy (field req_body ''name'')"
  proof -
    define upd where "upd = [(''name'', field req_body ''name''),
                    (''description'', field req_body ''description''),
                    (''updatedAt'', Date (now e))]"
    from update_item_existing [OF h(1-4) upd_def] obtain pre post
      where pre: "\<not> list_ex (matches_id oid) pre" and md: "matches_id oid d"
        and r: "update_item e ident req_body s =
             ((200, DocBody (Some (apply_set upd d))),
              (logged (FindOneAndUpdate oid upd) s)\<lparr>items := pre @ apply_set upd d # post\<rparr>)"
      by blast
    have md': "matches_id oid (apply_set upd d)"
      unfolding upd_def using md by (simp add: matches_id_apply_set3)
    have n: "field (apply_set upd d) ''name'' = to_bson (field req_body ''name'')"
      unfolding upd_def by (simp add: field_def map_of_apply_set3)
    have "fst (update_item e ident req_body s) = (200, DocBody (Some (apply_set upd d))) \<and>
          find (matches_id oid) (items (snd (update_item e ident req_body s))) = Some (apply_set upd d) \<and>
          field (apply_set upd d) ''name'' = to_bson (field req_body ''name'') \<and>
          \<not> truthy (field (apply_set upd d) ''name'')"
      using h(5) by (simp add: r n truthy_to_bson find_split_eq [OF pre md'])
    then show ?thesis by blast
  qed
  from a b show ?thesis by blast
qed

text \<open>C9 for an update of the sample item with a body that has no \<open>name\<close>.\<close>

theorem update_never_validates_name_witness:
  "ObjectId_isValid ''6584a1b2c3d4e5f6a7b8c9d0'' \<and>
   connected with_item \<and> (\<forall>k. \<not> fault env2 k) \<and>
   find (matches_id sample_id) (items with_item) = Some sample_doc \<and>
   \<not> truthy (field [(''description'', Str ''no name'')] ''name'') \<and>
   fst (fst (update_item env2 ''6584a1b2c3d4e5f6a7b8c9d0'' [(''description'', Str ''no name'')] with_item))
     \<in> {200, 404, 500} \<and>
   (\<exists>d'. fst (update_item env2 ''6584a1b2c3d4e5f6a7b8c9d0'' [(''description'', Str ''no name'')] with_item)
            = (200, DocBody (Some d')) \<and> field d' ''name'' = Null)"
proof -
  have v: "ObjectId_isValid ''6584a1b2c3d4e5f6a7b8c9d0''"
    by (rule ObjectId_new_isValid [OF sample_id_new])
  have f: "field [(''description'', Str ''no name'')] ''name'' = Undefined"
    by (simp add: field_def)
  from update_never_validates_name
         [of "''6584a1b2c3d4e5f6a7b8c9d0''" env2 "[(''description'', Str ''no name'')]" with_item
             sample_id sample_doc]
       v connected_with_item env_no_fault(2) sample_id_new find_sample_doc f
  show ?thesis by auto
qed

end
